theory Spec2Isabelle
  imports Complex_Main "HOL-Library.Word" "HOL-Library.Signed_Division"
begin

section \<open>The compass example of the Zumo Shield: a shallow embedding\<close>

text \<open>
  The sketch \<^verbatim>\<open>CompassExample.ino\<close> calibrates the magnetometer in \<^verbatim>\<open>setup()\<close>,
  and in \<^verbatim>\<open>loop()\<close> turns the robot towards a target heading, drives straight for a
  second and moves the target by 90 degrees. The sections below follow the sketch function
  by function.
\<close>

subsection \<open>Machine integers\<close>

text \<open>
  The boards the Zumo Shield plugs into (Arduino Uno, Leonardo) are 8-bit AVR
  controllers: \<^verbatim>\<open>int\<close> has 16 bits, two's complement. C++ leaves signed overflow
  undefined; the code that avr-gcc generates wraps around, and so does the model. Every
  \<^verbatim>\<open>int\<close> of the sketch is a 16-bit word; \<open>sint\<close> reads its signed value and \<open><s\<close> is
  the signed comparison. Division and remainder truncate towards zero, as C's \<^verbatim>\<open>/\<close> and
  \<^verbatim>\<open>%\<close> do. With headings in \<open>[0, 360)\<close> the one place where a value leaves the 16-bit
  range is the product \<^verbatim>\<open>SPEED*relative_heading\<close> in \<^verbatim>\<open>loop()\<close>.
\<close>

type_synonym int16 = "16 word"

definition int_div :: "int16 \<Rightarrow> int16 \<Rightarrow> int16" where
  "int_div a b = word_of_int (sint a sdiv sint b)"

definition int_mod :: "int16 \<Rightarrow> int16 \<Rightarrow> int16" where
  "int_mod a b = word_of_int (sint a smod sint b)"

text \<open>The macro \<^verbatim>\<open>abs(x)\<close> of the Arduino core: \<^verbatim>\<open>((x)>0?(x):-(x))\<close>.\<close>

definition abs_macro :: "int16 \<Rightarrow> int16" where
  "abs_macro a = (if 0 <s a then a else - a)"

subsection \<open>Floating point\<close>

text \<open>
  The sketch computes the heading in floating point: conversions of integers, the four
  operations, the comparison with zero, the conversion \<^verbatim>\<open>(long)\<close> and \<^verbatim>\<open>atan2\<close> of the
  C library. What these return, bit for bit, is the business of the compiler's run-time
  library and of the C library, which are not part of the sketch. The floating-point unit
  is therefore a parameter of the model: a record of the operations on a type \<open>'f\<close> of
  floating-point values (on AVR \<^verbatim>\<open>float\<close> and \<^verbatim>\<open>double\<close> are the same 32-bit format).
  \<open>fp_class\<close> and \<open>fp_val\<close> read a value: whether it is a finite number, an infinity or
  a NaN, and which real number a finite value stands for. The literals \<^verbatim>\<open>2.0\<close>,
  \<^verbatim>\<open>1.0\<close>, \<^verbatim>\<open>10.0\<close> and \<^verbatim>\<open>180\<close> are the conversions of the integers 2, 1, 10 and 180.
\<close>

datatype fp_kind = FP_finite | FP_infinite | FP_nan

record 'f fpu =
  fp_of_int :: "int \<Rightarrow> 'f"
  fp_half :: "'f"
  fp_pi :: "'f"
  fp_add :: "'f \<Rightarrow> 'f \<Rightarrow> 'f"
  fp_sub :: "'f \<Rightarrow> 'f \<Rightarrow> 'f"
  fp_mul :: "'f \<Rightarrow> 'f \<Rightarrow> 'f"
  fp_div :: "'f \<Rightarrow> 'f \<Rightarrow> 'f"
  fp_atan2 :: "'f \<Rightarrow> 'f \<Rightarrow> 'f"
  fp_ge0 :: "'f \<Rightarrow> bool"
  fp_to_long :: "'f \<Rightarrow> int"
  fp_class :: "'f \<Rightarrow> fp_kind"
  fp_val :: "'f \<Rightarrow> real"

text \<open>
  The macro \<^verbatim>\<open>round(x)\<close> of the Arduino core:
  \<^verbatim>\<open>((x)>=0?(long)((x)+0.5):(long)((x)-0.5))\<close>.
\<close>

definition round_macro :: "'f fpu \<Rightarrow> 'f \<Rightarrow> int" where
  "round_macro fpu x =
     (if fp_ge0 fpu x then fp_to_long fpu (fp_add fpu x (fp_half fpu))
      else fp_to_long fpu (fp_sub fpu x (fp_half fpu)))"

subsection \<open>Constants of the sketch\<close>

definition SPEED :: int16 where
  "SPEED = 200"

definition CALIBRATION_SAMPLES :: nat where
  "CALIBRATION_SAMPLES = 70"

definition DEVIATION_THRESHOLD :: int16 where
  "DEVIATION_THRESHOLD = 5"

subsection \<open>Data\<close>

text \<open>
  Modelled from the spec: \<^verbatim>\<open>LSM303::vector\<close> is declared in \<^verbatim>\<open>LSM303.h\<close>, a library
  outside the sources. The spec's data model gives a magnetic vector three integer
  components \<open>x\<close>, \<open>y\<close>, \<open>z\<close>; they are the fields \<open>vx\<close>, \<open>vy\<close>, \<open>vz\<close> here.
\<close>

record vector =
  vx :: int
  vy :: int
  vz :: int

text \<open>
  What the sketch does to the outside, in the order it does it: the motor commands, the
  delays (in milliseconds) and the waits for the push button. Serial output and the
  configuration of the magnetometer's registers are left out.
\<close>

datatype event =
    SetLeftSpeed int16
  | SetRightSpeed int16
  | SetSpeeds int16 int16
  | Delay nat
  | WaitForButton

text \<open>
  The state of the program and of its devices. \<open>compass_m\<close>, \<open>compass_m_min\<close> and
  \<open>compass_m_max\<close> are the fields \<^verbatim>\<open>m\<close>, \<^verbatim>\<open>m_min\<close>, \<^verbatim>\<open>m_max\<close> of the global \<^verbatim>\<open>compass\<close>.
  The magnetometer is a sequence of raw readings, \<open>sensor\<close>, of which \<open>reads\<close> have been
  taken. \<open>trace\<close> holds the events so far, oldest first. \<open>target_heading\<close> is the static
  local of \<^verbatim>\<open>loop()\<close>: \<open>None\<close> until its initialiser has run.
\<close>

record world =
  compass_m :: vector
  compass_m_min :: vector
  compass_m_max :: vector
  sensor :: "nat \<Rightarrow> vector"
  reads :: nat
  trace :: "event list"
  target_heading :: "int16 option"

definition emit :: "event list \<Rightarrow> world \<Rightarrow> world" where
  "emit es w = w\<lparr>trace := trace w @ es\<rparr>"

text \<open>\<^verbatim>\<open>compass.read()\<close> stores the next raw reading in \<^verbatim>\<open>compass.m\<close>.\<close>

definition compass_read :: "world \<Rightarrow> world" where
  "compass_read w = w\<lparr>compass_m := sensor w (reads w), reads := Suc (reads w)\<rparr>"

subsection \<open>\<^verbatim>\<open>setup()\<close>: calibration\<close>

definition running_min_init :: vector where
  "running_min_init = \<lparr>vx = 2047, vy = 2047, vz = 2047\<rparr>"

definition running_max_init :: vector where
  "running_max_init = \<lparr>vx = - 2048, vy = - 2048, vz = - 2048\<rparr>"

text \<open>
  The sampling loop \<^verbatim>\<open>for(index = 0; index < CALIBRATION_SAMPLES; index ++)\<close>. The counter
  is an \<^verbatim>\<open>unsigned char\<close> that stays below 70, so it never wraps and is a natural number
  here.
\<close>

function calibration_loop :: "nat \<Rightarrow> vector \<times> vector \<times> world \<Rightarrow> vector \<times> vector \<times> world" where
  "calibration_loop index (running_min, running_max, w) =
     (if index < CALIBRATION_SAMPLES then
        let w = compass_read w;
            running_min = running_min\<lparr>vx := min (vx running_min) (vx (compass_m w))\<rparr>;
            running_min = running_min\<lparr>vy := min (vy running_min) (vy (compass_m w))\<rparr>;
            running_max = running_max\<lparr>vx := max (vx running_max) (vx (compass_m w))\<rparr>;
            running_max = running_max\<lparr>vy := max (vy running_max) (vy (compass_m w))\<rparr>;
            w = emit [Delay 50] w
        in calibration_loop (index + 1) (running_min, running_max, w)
      else (running_min, running_max, w))"
  by pat_completeness auto
termination
  by (relation "measure (\<lambda>(index, _). CALIBRATION_SAMPLES - index)") auto

declare calibration_loop.simps [simp del]

definition setup_sketch :: "world \<Rightarrow> world" where
  "setup_sketch w =
     (let running_min = running_min_init;
          running_max = running_max_init;
          w = emit [WaitForButton] w;
          w = emit [SetLeftSpeed SPEED] w;
          w = emit [SetRightSpeed (- SPEED)] w;
          (running_min, running_max, w) = calibration_loop 0 (running_min, running_max, w);
          w = emit [SetLeftSpeed 0] w;
          w = emit [SetRightSpeed 0] w;
          w = w\<lparr>compass_m_max := (compass_m_max w)\<lparr>vx := vx running_max\<rparr>\<rparr>;
          w = w\<lparr>compass_m_max := (compass_m_max w)\<lparr>vy := vy running_max\<rparr>\<rparr>;
          w = w\<lparr>compass_m_min := (compass_m_min w)\<lparr>vx := vx running_min\<rparr>\<rparr>;
          w = w\<lparr>compass_m_min := (compass_m_min w)\<lparr>vy := vy running_min\<rparr>\<rparr>
      in emit [WaitForButton] w)"

subsection \<open>\<^verbatim>\<open>heading()\<close>\<close>

text \<open>
  The two quotients have the divisors \<^verbatim>\<open>m_max.x - m_min.x\<close> and \<^verbatim>\<open>m_max.y - m_min.y\<close>,
  and the sketch does not test them: whatever the division returns goes on into
  \<^verbatim>\<open>atan2\<close>, and \<^verbatim>\<open>heading()\<close> returns an \<^verbatim>\<open>int\<close> in every case.
\<close>

definition x_scaled :: "'f fpu \<Rightarrow> world \<Rightarrow> vector \<Rightarrow> 'f" where
  "x_scaled fpu w v =
     fp_sub fpu
       (fp_div fpu
          (fp_mul fpu (fp_of_int fpu 2) (fp_of_int fpu (vx v - vx (compass_m_min w))))
          (fp_of_int fpu (vx (compass_m_max w) - vx (compass_m_min w))))
       (fp_of_int fpu 1)"

definition y_scaled :: "'f fpu \<Rightarrow> world \<Rightarrow> vector \<Rightarrow> 'f" where
  "y_scaled fpu w v =
     fp_sub fpu
       (fp_div fpu
          (fp_mul fpu (fp_of_int fpu 2) (fp_of_int fpu (vy v - vy (compass_m_min w))))
          (fp_of_int fpu (vy (compass_m_max w) - vy (compass_m_min w))))
       (fp_of_int fpu 1)"

definition heading :: "'f fpu \<Rightarrow> world \<Rightarrow> vector \<Rightarrow> int16" where
  "heading fpu w v =
     (let angle =
            word_of_int
              (round_macro fpu
                 (fp_div fpu
                    (fp_mul fpu (fp_atan2 fpu (y_scaled fpu w v) (x_scaled fpu w v))
                       (fp_of_int fpu 180))
                    (fp_pi fpu)));
          angle = (if angle <s 0 then angle + 360 else angle)
      in angle)"

subsection \<open>\<^verbatim>\<open>relativeHeading()\<close>\<close>

definition relativeHeading :: "int16 \<Rightarrow> int16 \<Rightarrow> int16" where
  "relativeHeading heading_from heading_to =
     (let relative_heading = heading_to - heading_from;
          relative_heading =
            (if 180 <s relative_heading then relative_heading - 360 else relative_heading);
          relative_heading =
            (if relative_heading <s - 180 then relative_heading + 360 else relative_heading)
      in relative_heading)"

subsection \<open>\<^verbatim>\<open>averageHeading()\<close>\<close>

text \<open>The loop \<^verbatim>\<open>for(int i = 0; i < 10; i ++)\<close> that sums ten readings.\<close>

function average_loop :: "nat \<Rightarrow> vector \<times> world \<Rightarrow> vector \<times> world" where
  "average_loop i (avg, w) =
     (if i < 10 then
        let w = compass_read w;
            avg = avg\<lparr>vx := vx avg + vx (compass_m w)\<rparr>;
            avg = avg\<lparr>vy := vy avg + vy (compass_m w)\<rparr>
        in average_loop (i + 1) (avg, w)
      else (avg, w))"
  by pat_completeness auto
termination
  by (relation "measure (\<lambda>(i, _). 10 - i)") auto

declare average_loop.simps [simp del]

text \<open>
  \<^verbatim>\<open>avg.x /= 10.0\<close> converts the sum to floating point, divides and converts the quotient
  back into the integer component.
\<close>

definition averageHeading :: "'f fpu \<Rightarrow> world \<Rightarrow> int16 \<times> world" where
  "averageHeading fpu w =
     (let avg = \<lparr>vx = 0, vy = 0, vz = 0\<rparr>;
          (avg, w) = average_loop 0 (avg, w);
          avg = avg\<lparr>vx := fp_to_long fpu (fp_div fpu (fp_of_int fpu (vx avg)) (fp_of_int fpu 10))\<rparr>;
          avg = avg\<lparr>vy := fp_to_long fpu (fp_div fpu (fp_of_int fpu (vy avg)) (fp_of_int fpu 10))\<rparr>
      in (heading fpu w avg, w))"

subsection \<open>\<^verbatim>\<open>loop()\<close>\<close>

text \<open>
  \<^verbatim>\<open>static int target_heading = averageHeading();\<close> runs on the first call of
  \<^verbatim>\<open>loop()\<close> only.
\<close>

definition loop_static :: "'f fpu \<Rightarrow> world \<Rightarrow> world" where
  "loop_static fpu w =
     (case target_heading w of
        Some t \<Rightarrow> w
      | None \<Rightarrow> (let (h, w) = averageHeading fpu w in w\<lparr>target_heading := Some h\<rparr>))"

text \<open>
  The body of \<^verbatim>\<open>loop()\<close> from the computation of \<^verbatim>\<open>relative_heading\<close> on, given the
  heading just measured. It reads the static target, which \<^verbatim>\<open>loop()\<close> has initialised
  by then; there is no result, \<open>None\<close>, from a world where it is not.
\<close>

definition loop_steer :: "'f fpu \<Rightarrow> int16 \<Rightarrow> world \<Rightarrow> world option" where
  "loop_steer fpu heading_now w =
     (case target_heading w of
        None \<Rightarrow> None
      | Some target \<Rightarrow>
          let relative_heading = relativeHeading heading_now target in
          if abs_macro relative_heading <s DEVIATION_THRESHOLD then
            let w = emit [SetSpeeds SPEED SPEED] w;
                w = emit [Delay 1000] w;
                w = emit [SetSpeeds 0 0] w;
                w = emit [Delay 100] w;
                (h, w) = averageHeading fpu w
            in Some (w\<lparr>target_heading := Some (int_mod (h + 90) 360)\<rparr>)
          else
            let speed = int_div (SPEED * relative_heading) 180;
                speed = (if speed <s 0 then speed - 100 else speed + 100)
            in Some (emit [SetSpeeds speed (- speed)] w))"

definition loop :: "'f fpu \<Rightarrow> world \<Rightarrow> world option" where
  "loop fpu w =
     (let w = loop_static fpu w;
          (h, w) = averageHeading fpu w
      in loop_steer fpu h w)"

subsection \<open>Notions for the properties\<close>

text \<open>The raw readings that the calibration of \<^verbatim>\<open>setup()\<close> takes when it starts in \<open>w\<close>.\<close>

definition calibration_samples :: "world \<Rightarrow> vector list" where
  "calibration_samples w = map (sensor w) [reads w ..< reads w + CALIBRATION_SAMPLES]"

text \<open>The speeds that an event asks of the motors.\<close>

fun motor_speeds :: "event \<Rightarrow> int16 list" where
  "motor_speeds (SetLeftSpeed l) = [l]"
| "motor_speeds (SetRightSpeed r) = [r]"
| "motor_speeds (SetSpeeds l r) = [l, r]"
| "motor_speeds (Delay ms) = []"
| "motor_speeds WaitForButton = []"

text \<open>
  Non-degenerate calibration bounds: on both axes the maximum is above the minimum.
\<close>

definition calibrated :: "world \<Rightarrow> bool" where
  "calibrated w \<longleftrightarrow>
     vx (compass_m_min w) < vx (compass_m_max w) \<and> vy (compass_m_min w) < vy (compass_m_max w)"

text \<open>
  The static target heading, once set, is a heading: a value in \<open>[0, 360)\<close>.
\<close>

definition target_ok :: "world \<Rightarrow> bool" where
  "target_ok w \<longleftrightarrow>
     (case target_heading w of None \<Rightarrow> True | Some t \<Rightarrow> 0 \<le> sint t \<and> sint t < 360)"

text \<open>
  What the properties below ask of the floating-point unit. Every clause holds of IEEE 754
  arithmetic with rounding to nearest in the 32-bit format and of a C library that keeps
  \<^verbatim>\<open>atan2\<close> within \<open>\<plusminus>\<pi>\<close>:
  \<^item> an integer converts to a finite number, non-zero unless the integer is zero, and
    exactly up to \<open>2\<^sup>2\<^sup>4\<close> in absolute value (the integers of the sketch are machine
    integers, far below the largest finite value); \<^verbatim>\<open>0.5\<close> is a half and \<^verbatim>\<open>M_PI\<close> lies between 2
    and 4;
  \<^item> an operation on finite numbers returns the exact result when twice that is an
    integer of at most \<open>2\<^sup>2\<^sup>4\<close> in absolute value, and is within \<open>1/1024\<close> of the exact
    result when that is at most 1024 in absolute value;
  \<^item> a product of finite numbers, a quotient of a number by a finite non-zero number and
    a difference of a number and a finite number are not NaN;
  \<^item> a quotient by zero is not a finite number, and neither is the difference of a
    non-finite value and a finite number;
  \<^item> \<^verbatim>\<open>atan2\<close> of two numbers is finite and at most \<^verbatim>\<open>M_PI\<close> in absolute value, and it
    is zero for a zero first and a positive second argument;
  \<^item> \<^verbatim>\<open>x >= 0\<close> compares the value of a finite number, and \<^verbatim>\<open>(long)x\<close> drops the fraction
    of a finite number below \<open>2\<^sup>3\<^sup>1\<close> in absolute value.
\<close>

definition c_trunc :: "real \<Rightarrow> int" where
  "c_trunc r = (if 0 \<le> r then \<lfloor>r\<rfloor> else \<lceil>r\<rceil>)"

definition fp_finite :: "'f fpu \<Rightarrow> 'f \<Rightarrow> bool" where
  "fp_finite fpu a \<longleftrightarrow> fp_class fpu a = FP_finite"

definition fp_number :: "'f fpu \<Rightarrow> 'f \<Rightarrow> bool" where
  "fp_number fpu a \<longleftrightarrow> fp_class fpu a \<noteq> FP_nan"

definition fp_rounds :: "'f fpu \<Rightarrow> 'f \<Rightarrow> real \<Rightarrow> bool" where
  "fp_rounds fpu c r \<longleftrightarrow>
     ((\<exists>n. 2 * r = real_of_int n \<and> \<bar>n\<bar> \<le> 16777216) \<longrightarrow> fp_finite fpu c \<and> fp_val fpu c = r)
     \<and> (\<bar>r\<bar> \<le> 1024 \<longrightarrow> fp_finite fpu c \<and> \<bar>fp_val fpu c - r\<bar> \<le> 1 / 1024)"

definition fpu_contract :: "'f fpu \<Rightarrow> bool" where
  "fpu_contract fpu \<longleftrightarrow>
     (\<forall>n. fp_finite fpu (fp_of_int fpu n)
          \<and> (n \<noteq> 0 \<longrightarrow> fp_val fpu (fp_of_int fpu n) \<noteq> 0)
          \<and> (\<bar>n\<bar> \<le> 16777216 \<longrightarrow> fp_val fpu (fp_of_int fpu n) = real_of_int n))
     \<and> fp_finite fpu (fp_half fpu) \<and> fp_val fpu (fp_half fpu) = 1 / 2
     \<and> fp_finite fpu (fp_pi fpu) \<and> 2 \<le> fp_val fpu (fp_pi fpu) \<and> fp_val fpu (fp_pi fpu) < 4
     \<and> (\<forall>a b. fp_finite fpu a \<and> fp_finite fpu b
          \<longrightarrow> fp_rounds fpu (fp_add fpu a b) (fp_val fpu a + fp_val fpu b)
            \<and> fp_rounds fpu (fp_sub fpu a b) (fp_val fpu a - fp_val fpu b)
            \<and> fp_rounds fpu (fp_mul fpu a b) (fp_val fpu a * fp_val fpu b)
            \<and> (fp_val fpu b \<noteq> 0
                \<longrightarrow> fp_rounds fpu (fp_div fpu a b) (fp_val fpu a / fp_val fpu b)))
     \<and> (\<forall>a b. fp_finite fpu a \<and> fp_finite fpu b \<longrightarrow> fp_number fpu (fp_mul fpu a b))
     \<and> (\<forall>a b. fp_number fpu a \<and> fp_finite fpu b \<and> fp_val fpu b \<noteq> 0
          \<longrightarrow> fp_number fpu (fp_div fpu a b))
     \<and> (\<forall>a b. fp_number fpu a \<and> fp_finite fpu b \<longrightarrow> fp_number fpu (fp_sub fpu a b))
     \<and> (\<forall>a b. fp_finite fpu b \<and> fp_val fpu b = 0 \<longrightarrow> \<not> fp_finite fpu (fp_div fpu a b))
     \<and> (\<forall>a b. \<not> fp_finite fpu a \<and> fp_finite fpu b \<longrightarrow> \<not> fp_finite fpu (fp_sub fpu a b))
     \<and> (\<forall>b a. fp_number fpu b \<and> fp_number fpu a
          \<longrightarrow> fp_finite fpu (fp_atan2 fpu b a)
            \<and> \<bar>fp_val fpu (fp_atan2 fpu b a)\<bar> \<le> fp_val fpu (fp_pi fpu))
     \<and> (\<forall>b a. fp_finite fpu b \<and> fp_val fpu b = 0 \<and> fp_finite fpu a \<and> 0 < fp_val fpu a
          \<longrightarrow> fp_val fpu (fp_atan2 fpu b a) = 0)
     \<and> (\<forall>a. fp_finite fpu a \<longrightarrow> (fp_ge0 fpu a \<longleftrightarrow> 0 \<le> fp_val fpu a))
     \<and> (\<forall>a. fp_finite fpu a \<and> \<bar>fp_val fpu a\<bar> < 2147483648
          \<longrightarrow> fp_to_long fpu a = c_trunc (fp_val fpu a))"

text \<open>
  A floating-point unit for concrete cases: IEEE 754 arithmetic without rounding error.
  Its values are the real numbers, the two infinities and NaN; a division by zero gives an
  infinity, or NaN for \<open>0 / 0\<close>; \<open>atan2\<close> is the two-argument arctangent with the values of
  the C library at the infinities; \<^verbatim>\<open>(long)\<close> of an infinity or of NaN is \<open>-2\<^sup>3\<^sup>1\<close>, as the
  usual conversion routines have it. The concrete cases below use it at inputs where the
  32-bit arithmetic gives the same heading.
\<close>

datatype xfloat = Fin real | PInf | NInf | NaN

definition atan2 :: "real \<Rightarrow> real \<Rightarrow> real" where
  "atan2 b a =
     (if 0 < a then arctan (b / a)
      else if a < 0 then (if 0 \<le> b then arctan (b / a) + pi else arctan (b / a) - pi)
      else if 0 < b then pi / 2
      else if b < 0 then - (pi / 2)
      else 0)"

fun x_sign :: "xfloat \<Rightarrow> int" where
  "x_sign (Fin r) = (if 0 < r then 1 else if r < 0 then - 1 else 0)"
| "x_sign PInf = 1"
| "x_sign NInf = - 1"
| "x_sign NaN = 0"

definition x_inf :: "int \<Rightarrow> xfloat" where
  "x_inf s = (if 0 < s then PInf else if s < 0 then NInf else NaN)"

fun x_neg :: "xfloat \<Rightarrow> xfloat" where
  "x_neg (Fin r) = Fin (- r)"
| "x_neg PInf = NInf"
| "x_neg NInf = PInf"
| "x_neg NaN = NaN"

fun x_add :: "xfloat \<Rightarrow> xfloat \<Rightarrow> xfloat" where
  "x_add (Fin a) (Fin b) = Fin (a + b)"
| "x_add NaN b = NaN"
| "x_add a NaN = NaN"
| "x_add PInf NInf = NaN"
| "x_add NInf PInf = NaN"
| "x_add PInf b = PInf"
| "x_add NInf b = NInf"
| "x_add (Fin a) b = b"

definition x_sub :: "xfloat \<Rightarrow> xfloat \<Rightarrow> xfloat" where
  "x_sub a b = x_add a (x_neg b)"

fun x_mul :: "xfloat \<Rightarrow> xfloat \<Rightarrow> xfloat" where
  "x_mul (Fin a) (Fin b) = Fin (a * b)"
| "x_mul NaN b = NaN"
| "x_mul a NaN = NaN"
| "x_mul a b = x_inf (x_sign a * x_sign b)"

fun x_div :: "xfloat \<Rightarrow> xfloat \<Rightarrow> xfloat" where
  "x_div (Fin a) (Fin b) = (if b = 0 then x_inf (x_sign (Fin a)) else Fin (a / b))"
| "x_div NaN b = NaN"
| "x_div a NaN = NaN"
| "x_div (Fin a) b = Fin 0"
| "x_div a (Fin b) = x_inf (x_sign a * (if b < 0 then - 1 else 1))"
| "x_div a b = NaN"

fun x_atan2 :: "xfloat \<Rightarrow> xfloat \<Rightarrow> xfloat" where
  "x_atan2 (Fin b) (Fin a) = Fin (atan2 b a)"
| "x_atan2 NaN a = NaN"
| "x_atan2 b NaN = NaN"
| "x_atan2 (Fin b) PInf = Fin 0"
| "x_atan2 (Fin b) NInf = Fin (if 0 \<le> b then pi else - pi)"
| "x_atan2 PInf (Fin a) = Fin (pi / 2)"
| "x_atan2 NInf (Fin a) = Fin (- (pi / 2))"
| "x_atan2 PInf PInf = Fin (pi / 4)"
| "x_atan2 NInf PInf = Fin (- (pi / 4))"
| "x_atan2 PInf NInf = Fin (3 * pi / 4)"
| "x_atan2 NInf NInf = Fin (- (3 * pi / 4))"

fun x_ge0 :: "xfloat \<Rightarrow> bool" where
  "x_ge0 (Fin r) = (0 \<le> r)"
| "x_ge0 PInf = True"
| "x_ge0 NInf = False"
| "x_ge0 NaN = False"

fun x_to_long :: "xfloat \<Rightarrow> int" where
  "x_to_long (Fin r) = c_trunc r"
| "x_to_long a = - 2147483648"

fun x_class :: "xfloat \<Rightarrow> fp_kind" where
  "x_class (Fin r) = FP_finite"
| "x_class PInf = FP_infinite"
| "x_class NInf = FP_infinite"
| "x_class NaN = FP_nan"

fun x_val :: "xfloat \<Rightarrow> real" where
  "x_val (Fin r) = r"
| "x_val a = 0"

definition exact_fpu :: "xfloat fpu" where
  "exact_fpu =
     \<lparr>fp_of_int = (\<lambda>n. Fin (real_of_int n)),
      fp_half = Fin (1 / 2),
      fp_pi = Fin pi,
      fp_add = x_add,
      fp_sub = x_sub,
      fp_mul = x_mul,
      fp_div = x_div,
      fp_atan2 = x_atan2,
      fp_ge0 = x_ge0,
      fp_to_long = x_to_long,
      fp_class = x_class,
      fp_val = x_val\<rparr>"

text \<open>
  A world for concrete cases: bounds of -100 and 100 on both axes and a magnetometer that
  reads \<open>(100, 0, 0)\<close> every time.
\<close>

definition bench :: world where
  "bench =
     \<lparr>compass_m = \<lparr>vx = 0, vy = 0, vz = 0\<rparr>,
      compass_m_min = \<lparr>vx = - 100, vy = - 100, vz = 0\<rparr>,
      compass_m_max = \<lparr>vx = 100, vy = 100, vz = 0\<rparr>,
      sensor = (\<lambda>n. \<lparr>vx = 100, vy = 0, vz = 0\<rparr>),
      reads = 0,
      trace = [],
      target_heading = None\<rparr>"

section \<open>Properties\<close>

subsection \<open>Signed values of 16-bit results\<close>

lemma sint16_diff:
  fixes a b :: int16
  shows "- 32768 \<le> sint a - sint b \<Longrightarrow> sint a - sint b < 32768
    \<Longrightarrow> sint (a - b) = sint a - sint b"
  by (simp add: sint_word_diff signed_take_bit_int_eq_self)

lemma sint16_add:
  fixes a b :: int16
  shows "- 32768 \<le> sint a + sint b \<Longrightarrow> sint a + sint b < 32768
    \<Longrightarrow> sint (a + b) = sint a + sint b"
  by (simp add: sint_word_add signed_take_bit_int_eq_self)

lemma sint16_minus:
  fixes a :: int16
  shows "- 32768 < sint a \<Longrightarrow> sint (- a) = - sint a"
  using sint_lt [of a] by (simp add: sint_word_minus signed_take_bit_int_eq_self)

lemma sint16_of_int:
  "- 32768 \<le> k \<Longrightarrow> k < 32768 \<Longrightarrow> sint (word_of_int k :: int16) = k"
  by (simp add: sint_sbintrunc' signed_take_bit_int_eq_self)

lemma sint16_eqI:
  fixes a b :: int16
  assumes "sint a = sint b"
  shows "a = b"
proof (rule signed_word_eqI)
  show "sint a = sint b" by fact
qed

subsection \<open>The relative heading\<close>

lemma sint_relativeHeading:
  assumes "0 \<le> sint a" "sint a < 360" "0 \<le> sint b" "sint b < 360"
  shows "sint (relativeHeading a b) =
     (if 180 < sint b - sint a then sint b - sint a - 360
      else if sint b - sint a < - 180 then sint b - sint a + 360
      else sint b - sint a)"
proof -
  have d: "sint (b - a) = sint b - sint a"
    using assms by (intro sint16_diff) auto
  show ?thesis
    using assms
    by (auto simp add: relativeHeading_def Let_def word_sless_alt d sint16_diff sint16_add)
qed

text \<open>
  Claim C1. For all headings \<open>a\<close>, \<open>b\<close> in \<open>[0, 360)\<close> the relative heading from \<open>a\<close> to
  \<open>b\<close> lies in \<open>[-180, 180]\<close>, and it is the negation of the relative heading from \<open>b\<close>
  to \<open>a\<close>. The negation law holds at the boundary too: a difference of 180 gives 180 one
  way and -180 the other way.
\<close>

theorem relativeHeading_wrap_law:
  assumes "0 \<le> sint a" "sint a < 360" "0 \<le> sint b" "sint b < 360"
  shows "- 180 \<le> sint (relativeHeading a b) \<and> sint (relativeHeading a b) \<le> 180
    \<and> relativeHeading a b = - relativeHeading b a"
proof -
  have ab: "sint (relativeHeading a b) =
     (if 180 < sint b - sint a then sint b - sint a - 360
      else if sint b - sint a < - 180 then sint b - sint a + 360
      else sint b - sint a)"
    using assms by (rule sint_relativeHeading)
  have ba: "sint (relativeHeading b a) =
     (if 180 < sint a - sint b then sint a - sint b - 360
      else if sint a - sint b < - 180 then sint a - sint b + 360
      else sint a - sint b)"
    using assms(3,4,1,2) by (rule sint_relativeHeading)
  have range: "- 180 \<le> sint (relativeHeading a b) \<and> sint (relativeHeading a b) \<le> 180"
    using assms by (simp add: ab)
  have "- 32768 < sint (relativeHeading b a)"
    using assms by (simp add: ba)
  then have "sint (- relativeHeading b a) = - sint (relativeHeading b a)"
    by (rule sint16_minus)
  also have "\<dots> = sint (relativeHeading a b)"
    using assms by (simp add: ab ba)
  finally have "relativeHeading a b = - relativeHeading b a"
    by (simp add: sint16_eqI)
  with range show ?thesis by simp
qed

theorem relativeHeading_wrap_law_witness:
  "0 \<le> sint (10 :: int16) \<and> sint (10 :: int16) < 360
   \<and> 0 \<le> sint (350 :: int16) \<and> sint (350 :: int16) < 360
   \<and> relativeHeading 10 350 = - 20 \<and> relativeHeading 350 10 = 20
   \<and> - 180 \<le> sint (relativeHeading 10 350) \<and> sint (relativeHeading 10 350) \<le> 180
   \<and> relativeHeading 10 350 = - relativeHeading 350 10"
  using relativeHeading_wrap_law [of 10 350]
  by (simp add: relativeHeading_def word_sless_alt)



subsection \<open>The floating-point contract\<close>

lemma contract_of_int:
  assumes "fpu_contract fpu"
  shows "fp_finite fpu (fp_of_int fpu n)"
    and "n \<noteq> 0 \<Longrightarrow> fp_val fpu (fp_of_int fpu n) \<noteq> 0"
    and "\<bar>n\<bar> \<le> 16777216 \<Longrightarrow> fp_val fpu (fp_of_int fpu n) = real_of_int n"
  using assms by (simp_all add: fpu_contract_def)

lemma contract_half:
  assumes "fpu_contract fpu"
  shows "fp_finite fpu (fp_half fpu)" and "fp_val fpu (fp_half fpu) = 1 / 2"
  using assms by (simp_all add: fpu_contract_def)

lemma contract_pi:
  assumes "fpu_contract fpu"
  shows "fp_finite fpu (fp_pi fpu)" and "2 \<le> fp_val fpu (fp_pi fpu)" and "fp_val fpu (fp_pi fpu) < 4"
  using assms by (simp_all add: fpu_contract_def)

lemma contract_rounds:
  assumes "fpu_contract fpu" and "fp_finite fpu a" and "fp_finite fpu b"
  shows "fp_rounds fpu (fp_add fpu a b) (fp_val fpu a + fp_val fpu b)"
    and "fp_rounds fpu (fp_sub fpu a b) (fp_val fpu a - fp_val fpu b)"
    and "fp_rounds fpu (fp_mul fpu a b) (fp_val fpu a * fp_val fpu b)"
    and "fp_val fpu b \<noteq> 0 \<Longrightarrow> fp_rounds fpu (fp_div fpu a b) (fp_val fpu a / fp_val fpu b)"
  using assms by (simp_all add: fpu_contract_def)

lemma contract_number:
  assumes "fpu_contract fpu"
  shows "fp_finite fpu a \<Longrightarrow> fp_finite fpu b \<Longrightarrow> fp_number fpu (fp_mul fpu a b)"
    and "fp_number fpu a \<Longrightarrow> fp_finite fpu b \<Longrightarrow> fp_val fpu b \<noteq> 0
      \<Longrightarrow> fp_number fpu (fp_div fpu a b)"
    and "fp_number fpu a \<Longrightarrow> fp_finite fpu b \<Longrightarrow> fp_number fpu (fp_sub fpu a b)"
  using assms by (simp_all add: fpu_contract_def)

lemma contract_not_finite:
  assumes "fpu_contract fpu"
  shows "fp_finite fpu b \<Longrightarrow> fp_val fpu b = 0 \<Longrightarrow> \<not> fp_finite fpu (fp_div fpu a b)"
    and "\<not> fp_finite fpu a \<Longrightarrow> fp_finite fpu b \<Longrightarrow> \<not> fp_finite fpu (fp_sub fpu a b)"
  using assms by (simp_all add: fpu_contract_def)

lemma contract_atan2:
  assumes "fpu_contract fpu"
  shows "fp_number fpu b \<Longrightarrow> fp_number fpu a \<Longrightarrow> fp_finite fpu (fp_atan2 fpu b a)"
    and "fp_number fpu b \<Longrightarrow> fp_number fpu a
      \<Longrightarrow> \<bar>fp_val fpu (fp_atan2 fpu b a)\<bar> \<le> fp_val fpu (fp_pi fpu)"
    and "fp_finite fpu b \<Longrightarrow> fp_val fpu b = 0 \<Longrightarrow> fp_finite fpu a \<Longrightarrow> 0 < fp_val fpu a
      \<Longrightarrow> fp_val fpu (fp_atan2 fpu b a) = 0"
  using assms by (simp_all add: fpu_contract_def)

lemma contract_ge0:
  assumes "fpu_contract fpu" and "fp_finite fpu a"
  shows "fp_ge0 fpu a \<longleftrightarrow> 0 \<le> fp_val fpu a"
  using assms by (simp add: fpu_contract_def)

lemma contract_to_long:
  assumes "fpu_contract fpu" and "fp_finite fpu a" and "\<bar>fp_val fpu a\<bar> < 2147483648"
  shows "fp_to_long fpu a = c_trunc (fp_val fpu a)"
  using assms by (simp add: fpu_contract_def)

lemma fp_finite_number: "fp_finite fpu a \<Longrightarrow> fp_number fpu a"
  by (simp add: fp_finite_def fp_number_def)

lemma fp_rounds_exact:
  assumes "fp_rounds fpu c r" and "2 * r = real_of_int n" and "\<bar>n\<bar> \<le> 16777216"
  shows "fp_finite fpu c" and "fp_val fpu c = r"
  using assms unfolding fp_rounds_def by blast+

lemma fp_rounds_near:
  assumes "fp_rounds fpu c r" and "\<bar>r\<bar> \<le> 1024"
  shows "fp_finite fpu c" and "\<bar>fp_val fpu c - r\<bar> \<le> 1 / 1024"
  using assms unfolding fp_rounds_def by blast+

subsection \<open>The heading\<close>

lemma scaled_number:
  assumes c: "fpu_contract fpu" and d: "d \<noteq> 0"
  shows "fp_number fpu
    (fp_sub fpu (fp_div fpu (fp_mul fpu (fp_of_int fpu 2) (fp_of_int fpu a)) (fp_of_int fpu d))
       (fp_of_int fpu 1))"
proof -
  have "fp_number fpu (fp_mul fpu (fp_of_int fpu 2) (fp_of_int fpu a))"
    using c by (intro contract_number(1) contract_of_int(1))
  moreover have "fp_finite fpu (fp_of_int fpu d)" "fp_val fpu (fp_of_int fpu d) \<noteq> 0"
    using c d by (simp_all add: contract_of_int)
  ultimately have "fp_number fpu
      (fp_div fpu (fp_mul fpu (fp_of_int fpu 2) (fp_of_int fpu a)) (fp_of_int fpu d))"
    using c by (intro contract_number(2))
  then show ?thesis
    using c by (intro contract_number(3) contract_of_int(1))
qed

lemma scaled_not_finite:
  assumes c: "fpu_contract fpu"
  shows "\<not> fp_finite fpu
    (fp_sub fpu (fp_div fpu (fp_mul fpu (fp_of_int fpu 2) (fp_of_int fpu a)) (fp_of_int fpu 0))
       (fp_of_int fpu 1))"
proof -
  have "fp_finite fpu (fp_of_int fpu 0)" "fp_val fpu (fp_of_int fpu 0) = 0"
    using c contract_of_int(3) [OF c, of 0] by (simp_all add: contract_of_int(1))
  then have "\<not> fp_finite fpu
      (fp_div fpu (fp_mul fpu (fp_of_int fpu 2) (fp_of_int fpu a)) (fp_of_int fpu 0))"
    using c by (intro contract_not_finite(1))
  then show ?thesis
    using c by (intro contract_not_finite(2) contract_of_int(1))
qed

lemma degrees_near:
  assumes c: "fpu_contract fpu" and b: "fp_number fpu b" and a: "fp_number fpu a"
  shows "fp_finite fpu (fp_div fpu (fp_mul fpu (fp_atan2 fpu b a) (fp_of_int fpu 180)) (fp_pi fpu))"
    and "\<bar>fp_val fpu (fp_div fpu (fp_mul fpu (fp_atan2 fpu b a) (fp_of_int fpu 180)) (fp_pi fpu))\<bar>
      \<le> 180 + 2 / 1024"
proof -
  let ?t = "fp_atan2 fpu b a"
  let ?p = "fp_val fpu (fp_pi fpu)"
  let ?m = "fp_mul fpu ?t (fp_of_int fpu 180)"
  let ?d = "fp_div fpu ?m (fp_pi fpu)"
  have p: "2 \<le> ?p" "?p < 4" and pf: "fp_finite fpu (fp_pi fpu)"
    using c by (simp_all add: contract_pi)
  have tf: "fp_finite fpu ?t" and tv: "\<bar>fp_val fpu ?t\<bar> \<le> ?p"
    using c b a by (simp_all add: contract_atan2)
  have c180: "fp_finite fpu (fp_of_int fpu 180)" "fp_val fpu (fp_of_int fpu 180) = 180"
    using contract_of_int(1) [OF c] contract_of_int(3) [OF c, of 180] by simp_all
  have "fp_rounds fpu ?m (fp_val fpu ?t * 180)"
    using contract_rounds(3) [OF c tf c180(1)] by (simp add: c180(2))
  moreover have "\<bar>fp_val fpu ?t * 180\<bar> \<le> 1024"
    using tv p by (simp add: abs_mult)
  ultimately have mf: "fp_finite fpu ?m" and mv: "\<bar>fp_val fpu ?m - fp_val fpu ?t * 180\<bar> \<le> 1 / 1024"
    by (rule fp_rounds_near)+
  from mv tv have mb: "\<bar>fp_val fpu ?m\<bar> \<le> 180 * ?p + 1 / 1024"
    by linarith
  have q: "\<bar>fp_val fpu ?m / ?p\<bar> \<le> 180 + 1 / 1024"
  proof -
    have "\<bar>fp_val fpu ?m\<bar> \<le> (180 + 1 / 1024) * ?p"
      using mb p by (simp add: algebra_simps)
    then have "\<bar>fp_val fpu ?m\<bar> / ?p \<le> 180 + 1 / 1024"
      using p by (simp add: pos_divide_le_eq)
    then show ?thesis using p by simp
  qed
  have "?p \<noteq> 0" using p by simp
  then have "fp_rounds fpu ?d (fp_val fpu ?m / ?p)"
    using contract_rounds(4) [OF c mf pf] by simp
  moreover have "\<bar>fp_val fpu ?m / ?p\<bar> \<le> 1024"
    using q by linarith
  ultimately have df: "fp_finite fpu ?d" and dv: "\<bar>fp_val fpu ?d - fp_val fpu ?m / ?p\<bar> \<le> 1 / 1024"
    by (rule fp_rounds_near)+
  show "fp_finite fpu ?d" by (rule df)
  from dv q show "\<bar>fp_val fpu ?d\<bar> \<le> 180 + 2 / 1024"
    by linarith
qed

lemma round_macro_range:
  assumes c: "fpu_contract fpu" and f: "fp_finite fpu d" and v: "\<bar>fp_val fpu d\<bar> \<le> 180 + 2 / 1024"
  shows "- 180 \<le> round_macro fpu d \<and> round_macro fpu d \<le> 180"
proof (cases "0 \<le> fp_val fpu d")
  case True
  let ?s = "fp_add fpu d (fp_half fpu)"
  have "fp_rounds fpu ?s (fp_val fpu d + 1 / 2)"
    using contract_rounds(1) [OF c f contract_half(1) [OF c]] by (simp add: contract_half(2) [OF c])
  moreover have "\<bar>fp_val fpu d + 1 / 2\<bar> \<le> 1024"
    using v by linarith
  ultimately have sf: "fp_finite fpu ?s" and sv: "\<bar>fp_val fpu ?s - (fp_val fpu d + 1 / 2)\<bar> \<le> 1 / 1024"
    by (rule fp_rounds_near)+
  from sv v True have b: "0 \<le> fp_val fpu ?s" "fp_val fpu ?s < 181"
    by linarith+
  then have "fp_to_long fpu ?s = c_trunc (fp_val fpu ?s)"
    using c sf by (intro contract_to_long) simp_all
  moreover from b have "0 \<le> c_trunc (fp_val fpu ?s) \<and> c_trunc (fp_val fpu ?s) \<le> 180"
    by (simp add: c_trunc_def; linarith)
  moreover have "fp_ge0 fpu d"
    using True by (simp add: contract_ge0 [OF c f])
  ultimately show ?thesis
    by (simp add: round_macro_def)
next
  case False
  let ?s = "fp_sub fpu d (fp_half fpu)"
  have "fp_rounds fpu ?s (fp_val fpu d - 1 / 2)"
    using contract_rounds(2) [OF c f contract_half(1) [OF c]] by (simp add: contract_half(2) [OF c])
  moreover have "\<bar>fp_val fpu d - 1 / 2\<bar> \<le> 1024"
    using v by linarith
  ultimately have sf: "fp_finite fpu ?s" and sv: "\<bar>fp_val fpu ?s - (fp_val fpu d - 1 / 2)\<bar> \<le> 1 / 1024"
    by (rule fp_rounds_near)+
  from sv v False have b: "fp_val fpu ?s < 0" "- 181 < fp_val fpu ?s"
    by linarith+
  then have "fp_to_long fpu ?s = c_trunc (fp_val fpu ?s)"
    using c sf by (intro contract_to_long) simp_all
  moreover from b have "- 180 \<le> c_trunc (fp_val fpu ?s) \<and> c_trunc (fp_val fpu ?s) \<le> 0"
    by (simp add: c_trunc_def; linarith)
  moreover have "\<not> fp_ge0 fpu d"
    using False by (simp add: contract_ge0 [OF c f])
  ultimately show ?thesis
    by (simp add: round_macro_def)
qed

lemma sint_heading_angle:
  assumes "- 180 \<le> k" "k \<le> 180"
  shows "sint (let angle = word_of_int k :: int16 in if angle <s 0 then angle + 360 else angle)
      = (if k < 0 then k + 360 else k)"
proof -
  have k: "sint (word_of_int k :: int16) = k"
    using assms by (intro sint16_of_int) auto
  have "sint ((word_of_int k :: int16) + 360) = k + 360"
    using assms by (simp add: sint16_add k)
  with k show ?thesis by (simp add: Let_def word_sless_alt)
qed

lemma heading_calibrated:
  assumes c: "fpu_contract fpu" and w: "calibrated w"
  shows "0 \<le> sint (heading fpu w v) \<and> sint (heading fpu w v) < 360"
    and "sint (heading fpu w v) =
      (let rounded = round_macro fpu
             (fp_div fpu
                (fp_mul fpu (fp_atan2 fpu (y_scaled fpu w v) (x_scaled fpu w v)) (fp_of_int fpu 180))
                (fp_pi fpu))
       in if rounded < 0 then rounded + 360 else rounded)"
proof -
  let ?d = "fp_div fpu
      (fp_mul fpu (fp_atan2 fpu (y_scaled fpu w v) (x_scaled fpu w v)) (fp_of_int fpu 180))
      (fp_pi fpu)"
  define k where "k = round_macro fpu ?d"
  from w have dx: "vx (compass_m_max w) - vx (compass_m_min w) \<noteq> 0"
    and dy: "vy (compass_m_max w) - vy (compass_m_min w) \<noteq> 0"
    by (simp_all add: calibrated_def)
  have x: "fp_number fpu (x_scaled fpu w v)"
    unfolding x_scaled_def using c dx by (rule scaled_number)
  have y: "fp_number fpu (y_scaled fpu w v)"
    unfolding y_scaled_def using c dy by (rule scaled_number)
  have r: "- 180 \<le> k \<and> k \<le> 180"
    unfolding k_def using c degrees_near [OF c y x] by (rule round_macro_range)
  have h: "heading fpu w v = (let angle = word_of_int k in if angle <s 0 then angle + 360 else angle)"
    by (simp add: heading_def k_def)
  have s: "sint (let angle = word_of_int k :: int16 in if angle <s 0 then angle + 360 else angle)
      = (if k < 0 then k + 360 else k)"
    using r by (intro sint_heading_angle) simp_all
  from r have "0 \<le> (if k < 0 then k + 360 else k) \<and> (if k < 0 then k + 360 else k) < 360"
    by simp
  with h s show "0 \<le> sint (heading fpu w v) \<and> sint (heading fpu w v) < 360"
    by simp
  from h s show "sint (heading fpu w v) =
      (let rounded = round_macro fpu ?d in if rounded < 0 then rounded + 360 else rounded)"
    by (simp add: k_def Let_def)
qed

subsection \<open>The exact floating-point unit meets the contract\<close>

lemma atan2_range: "- pi < atan2 b a \<and> atan2 b a \<le> pi"
proof -
  have lb: "- (pi / 2) < arctan (b / a)" by (rule arctan_lbound)
  have ub: "arctan (b / a) < pi / 2" by (rule arctan_ubound)
  consider (pos) "0 < a" | (neg_up) "a < 0" "0 \<le> b" | (neg_down) "a < 0" "b < 0" | (zero) "a = 0"
    by linarith
  then show ?thesis
  proof cases
    case pos
    then have "atan2 b a = arctan (b / a)" by (simp add: atan2_def)
    with lb ub pi_gt_zero show ?thesis by linarith
  next
    case neg_up
    then have "b / a \<le> 0" by (simp add: divide_nonneg_neg)
    then have "arctan (b / a) \<le> 0" by (simp add: arctan_le_zero_iff)
    moreover from neg_up have "atan2 b a = arctan (b / a) + pi" by (simp add: atan2_def)
    ultimately show ?thesis using lb pi_gt_zero by linarith
  next
    case neg_down
    then have "0 < b / a" by (simp add: divide_neg_neg)
    then have "0 < arctan (b / a)" by (simp add: zero_less_arctan_iff)
    moreover from neg_down have "atan2 b a = arctan (b / a) - pi" by (simp add: atan2_def)
    ultimately show ?thesis using ub pi_gt_zero by linarith
  next
    case zero
    then have "atan2 b a = pi / 2 \<or> atan2 b a = - (pi / 2) \<or> atan2 b a = 0"
      by (simp add: atan2_def)
    with pi_gt_zero show ?thesis by linarith
  qed
qed

lemma exact_fields:
  "fp_of_int exact_fpu n = Fin (real_of_int n)"
  "fp_half exact_fpu = Fin (1 / 2)"
  "fp_pi exact_fpu = Fin pi"
  "fp_add exact_fpu = x_add"
  "fp_sub exact_fpu = x_sub"
  "fp_mul exact_fpu = x_mul"
  "fp_div exact_fpu = x_div"
  "fp_atan2 exact_fpu = x_atan2"
  "fp_ge0 exact_fpu = x_ge0"
  "fp_to_long exact_fpu = x_to_long"
  "fp_class exact_fpu = x_class"
  "fp_val exact_fpu = x_val"
  by (simp_all add: exact_fpu_def)

lemma exact_finite: "fp_finite exact_fpu a \<longleftrightarrow> (\<exists>r. a = Fin r)"
  by (cases a) (simp_all add: fp_finite_def exact_fields)

lemma exact_number: "fp_number exact_fpu a \<longleftrightarrow> a \<noteq> NaN"
  by (cases a) (simp_all add: fp_number_def exact_fields)

lemma exact_rounds: "fp_rounds exact_fpu (Fin r) r"
  by (simp add: fp_rounds_def exact_finite exact_fields)

lemma x_atan2_range:
  assumes "b \<noteq> NaN" "a \<noteq> NaN"
  shows "x_class (x_atan2 b a) = FP_finite \<and> \<bar>x_val (x_atan2 b a)\<bar> \<le> pi"
proof (cases b; cases a)
  fix s t assume "b = Fin s" "a = Fin t"
  then show ?thesis using atan2_range [of s t] by (simp add: abs_le_iff)
qed (use assms pi_gt_zero in \<open>simp_all add: abs_if\<close>)

lemma exact_fpu_contract: "fpu_contract exact_fpu"
  unfolding fpu_contract_def
proof (intro conjI allI impI)
  fix b a :: xfloat
  assume "fp_number exact_fpu b \<and> fp_number exact_fpu a"
  then have "x_class (x_atan2 b a) = FP_finite \<and> \<bar>x_val (x_atan2 b a)\<bar> \<le> pi"
    using x_atan2_range [of b a] by (simp add: exact_number)
  then show "fp_finite exact_fpu (fp_atan2 exact_fpu b a)"
    and "\<bar>fp_val exact_fpu (fp_atan2 exact_fpu b a)\<bar> \<le> fp_val exact_fpu (fp_pi exact_fpu)"
    by (simp_all add: fp_finite_def exact_fields)
next
  fix b a :: xfloat
  assume "fp_finite exact_fpu b \<and> fp_val exact_fpu b = 0 \<and> fp_finite exact_fpu a
    \<and> 0 < fp_val exact_fpu a"
  then show "fp_val exact_fpu (fp_atan2 exact_fpu b a) = 0"
    by (auto simp add: exact_finite exact_fields atan2_def)
next
  fix a b :: xfloat
  assume "fp_number exact_fpu a \<and> fp_finite exact_fpu b \<and> fp_val exact_fpu b \<noteq> 0"
  then show "fp_number exact_fpu (fp_div exact_fpu a b)"
    by (cases a) (auto simp add: exact_finite exact_number exact_fields x_inf_def split: if_splits)
next
  fix a b :: xfloat
  assume "fp_number exact_fpu a \<and> fp_finite exact_fpu b"
  then show "fp_number exact_fpu (fp_sub exact_fpu a b)"
    by (cases a) (auto simp add: exact_finite exact_number exact_fields x_sub_def)
next
  fix a b :: xfloat
  assume "fp_finite exact_fpu b \<and> fp_val exact_fpu b = 0"
  then show "\<not> fp_finite exact_fpu (fp_div exact_fpu a b)"
    by (cases a) (auto simp add: exact_finite exact_fields x_inf_def split: if_splits)
next
  fix a b :: xfloat
  assume "\<not> fp_finite exact_fpu a \<and> fp_finite exact_fpu b"
  then show "\<not> fp_finite exact_fpu (fp_sub exact_fpu a b)"
    by (cases a) (auto simp add: exact_finite exact_fields x_sub_def)
next
  fix a :: xfloat
  assume "fp_finite exact_fpu a \<and> \<bar>fp_val exact_fpu a\<bar> < 2147483648"
  then show "fp_to_long exact_fpu a = c_trunc (fp_val exact_fpu a)"
    by (auto simp add: exact_finite exact_fields)
next
  show "fp_finite exact_fpu (fp_half exact_fpu)"
    by (simp add: fp_finite_def exact_fields)
qed (auto simp add: exact_finite exact_number exact_fields exact_rounds x_sub_def pi_ge_two pi_less_4)

text \<open>
  Claim C2. For every vector and all non-degenerate calibration bounds the heading lies in
  \<open>[0, 360)\<close>, and it is what the sketch's expression gives: the two components scaled,
  \<^verbatim>\<open>atan2\<close> of them times 180 over \<^verbatim>\<open>M_PI\<close>, rounded by \<^verbatim>\<open>round\<close>, plus 360 exactly when
  the rounded angle is negative. This holds for every floating-point unit that meets the
  contract.
\<close>

theorem heading_range:
  assumes "fpu_contract fpu"
    and "vx (compass_m_min w) < vx (compass_m_max w)"
    and "vy (compass_m_min w) < vy (compass_m_max w)"
  shows "0 \<le> sint (heading fpu w v) \<and> sint (heading fpu w v) < 360
    \<and> sint (heading fpu w v) =
        (let scaled_x =
               fp_sub fpu
                 (fp_div fpu
                    (fp_mul fpu (fp_of_int fpu 2) (fp_of_int fpu (vx v - vx (compass_m_min w))))
                    (fp_of_int fpu (vx (compass_m_max w) - vx (compass_m_min w))))
                 (fp_of_int fpu 1);
             scaled_y =
               fp_sub fpu
                 (fp_div fpu
                    (fp_mul fpu (fp_of_int fpu 2) (fp_of_int fpu (vy v - vy (compass_m_min w))))
                    (fp_of_int fpu (vy (compass_m_max w) - vy (compass_m_min w))))
                 (fp_of_int fpu 1);
             degrees =
               fp_div fpu (fp_mul fpu (fp_atan2 fpu scaled_y scaled_x) (fp_of_int fpu 180))
                 (fp_pi fpu);
             rounded =
               (if fp_ge0 fpu degrees then fp_to_long fpu (fp_add fpu degrees (fp_half fpu))
                else fp_to_long fpu (fp_sub fpu degrees (fp_half fpu)))
         in if rounded < 0 then rounded + 360 else rounded)"
proof -
  from assms(2,3) have w: "calibrated w"
    by (simp add: calibrated_def)
  from heading_calibrated [OF assms(1) w, of v] show ?thesis
    by (simp add: Let_def round_macro_def x_scaled_def y_scaled_def)
qed

theorem heading_range_witness:
  "fpu_contract exact_fpu
   \<and> vx (compass_m_min bench) < vx (compass_m_max bench)
   \<and> vy (compass_m_min bench) < vy (compass_m_max bench)
   \<and> 0 \<le> sint (heading exact_fpu bench \<lparr>vx = 0, vy = - 100, vz = 7\<rparr>)
   \<and> sint (heading exact_fpu bench \<lparr>vx = 0, vy = - 100, vz = 7\<rparr>) < 360
   \<and> heading exact_fpu bench \<lparr>vx = 0, vy = - 100, vz = 7\<rparr> = 270"
proof -
  have b: "vx (compass_m_min bench) < vx (compass_m_max bench)"
    "vy (compass_m_min bench) < vy (compass_m_max bench)"
    by (simp_all add: bench_def)
  have "heading exact_fpu bench \<lparr>vx = 0, vy = - 100, vz = 7\<rparr> = 270"
    by (simp add: heading_def x_scaled_def y_scaled_def round_macro_def exact_fields x_sub_def
        atan2_def c_trunc_def bench_def word_sless_alt)
  with heading_range [OF exact_fpu_contract b, of "\<lparr>vx = 0, vy = - 100, vz = 7\<rparr>"]
    exact_fpu_contract b
  show ?thesis by simp
qed

text \<open>
  Claim C3. The heading computation divides by \<open>max_x - min_x\<close> and \<open>max_y - min_y\<close> and
  tests neither: the scaled components are the quotients, whatever the divisors are, and
  the heading is computed from them. With non-degenerate bounds both divisors are finite
  and non-zero and the scaled components are numbers. With equal maximum and minimum on an
  axis the divisor is zero and the scaled component is not a finite number: an infinity or
  a NaN, from which the heading returned means nothing.
\<close>

theorem heading_division_by_zero:
  assumes "fpu_contract fpu"
  shows "x_scaled fpu w v =
        fp_sub fpu
          (fp_div fpu
             (fp_mul fpu (fp_of_int fpu 2) (fp_of_int fpu (vx v - vx (compass_m_min w))))
             (fp_of_int fpu (vx (compass_m_max w) - vx (compass_m_min w))))
          (fp_of_int fpu 1)
    \<and> y_scaled fpu w v =
        fp_sub fpu
          (fp_div fpu
             (fp_mul fpu (fp_of_int fpu 2) (fp_of_int fpu (vy v - vy (compass_m_min w))))
             (fp_of_int fpu (vy (compass_m_max w) - vy (compass_m_min w))))
          (fp_of_int fpu 1)
    \<and> heading fpu w v =
        (let angle =
               word_of_int
                 (round_macro fpu
                    (fp_div fpu
                       (fp_mul fpu (fp_atan2 fpu (y_scaled fpu w v) (x_scaled fpu w v))
                          (fp_of_int fpu 180))
                       (fp_pi fpu)))
         in if angle <s 0 then angle + 360 else angle)
    \<and> (vx (compass_m_min w) < vx (compass_m_max w) \<and> vy (compass_m_min w) < vy (compass_m_max w)
        \<longrightarrow> fp_finite fpu (fp_of_int fpu (vx (compass_m_max w) - vx (compass_m_min w)))
          \<and> fp_val fpu (fp_of_int fpu (vx (compass_m_max w) - vx (compass_m_min w))) \<noteq> 0
          \<and> fp_finite fpu (fp_of_int fpu (vy (compass_m_max w) - vy (compass_m_min w)))
          \<and> fp_val fpu (fp_of_int fpu (vy (compass_m_max w) - vy (compass_m_min w))) \<noteq> 0
          \<and> fp_number fpu (x_scaled fpu w v) \<and> fp_number fpu (y_scaled fpu w v))
    \<and> (vx (compass_m_max w) = vx (compass_m_min w)
        \<longrightarrow> fp_val fpu (fp_of_int fpu (vx (compass_m_max w) - vx (compass_m_min w))) = 0
          \<and> \<not> fp_finite fpu (x_scaled fpu w v))
    \<and> (vy (compass_m_max w) = vy (compass_m_min w)
        \<longrightarrow> fp_val fpu (fp_of_int fpu (vy (compass_m_max w) - vy (compass_m_min w))) = 0
          \<and> \<not> fp_finite fpu (y_scaled fpu w v))"
proof -
  note c = assms
  have zero: "fp_val fpu (fp_of_int fpu 0) = 0"
    using contract_of_int(3) [OF c, of 0] by simp
  have good: "fp_finite fpu (fp_of_int fpu d) \<and> fp_val fpu (fp_of_int fpu d) \<noteq> 0" if "d \<noteq> 0" for d
    using that c by (simp add: contract_of_int)
  have x_num: "fp_number fpu (x_scaled fpu w v)"
    if "vx (compass_m_max w) - vx (compass_m_min w) \<noteq> 0"
    unfolding x_scaled_def using c that by (rule scaled_number)
  have y_num: "fp_number fpu (y_scaled fpu w v)"
    if "vy (compass_m_max w) - vy (compass_m_min w) \<noteq> 0"
    unfolding y_scaled_def using c that by (rule scaled_number)
  have x_bad: "\<not> fp_finite fpu (x_scaled fpu w v)" if "vx (compass_m_max w) = vx (compass_m_min w)"
    using scaled_not_finite [OF c, of "vx v - vx (compass_m_min w)"] that
    by (simp add: x_scaled_def)
  have y_bad: "\<not> fp_finite fpu (y_scaled fpu w v)" if "vy (compass_m_max w) = vy (compass_m_min w)"
    using scaled_not_finite [OF c, of "vy v - vy (compass_m_min w)"] that
    by (simp add: y_scaled_def)
  have defs: "x_scaled fpu w v =
        fp_sub fpu
          (fp_div fpu
             (fp_mul fpu (fp_of_int fpu 2) (fp_of_int fpu (vx v - vx (compass_m_min w))))
             (fp_of_int fpu (vx (compass_m_max w) - vx (compass_m_min w))))
          (fp_of_int fpu 1)"
    "y_scaled fpu w v =
        fp_sub fpu
          (fp_div fpu
             (fp_mul fpu (fp_of_int fpu 2) (fp_of_int fpu (vy v - vy (compass_m_min w))))
             (fp_of_int fpu (vy (compass_m_max w) - vy (compass_m_min w))))
          (fp_of_int fpu 1)"
    "heading fpu w v =
        (let angle =
               word_of_int
                 (round_macro fpu
                    (fp_div fpu
                       (fp_mul fpu (fp_atan2 fpu (y_scaled fpu w v) (x_scaled fpu w v))
                          (fp_of_int fpu 180))
                       (fp_pi fpu)))
         in if angle <s 0 then angle + 360 else angle)"
    by (simp_all add: x_scaled_def y_scaled_def heading_def Let_def)
  have nondeg: "fp_finite fpu (fp_of_int fpu (vx (compass_m_max w) - vx (compass_m_min w)))
      \<and> fp_val fpu (fp_of_int fpu (vx (compass_m_max w) - vx (compass_m_min w))) \<noteq> 0
      \<and> fp_finite fpu (fp_of_int fpu (vy (compass_m_max w) - vy (compass_m_min w)))
      \<and> fp_val fpu (fp_of_int fpu (vy (compass_m_max w) - vy (compass_m_min w))) \<noteq> 0
      \<and> fp_number fpu (x_scaled fpu w v) \<and> fp_number fpu (y_scaled fpu w v)"
    if "vx (compass_m_min w) < vx (compass_m_max w) \<and> vy (compass_m_min w) < vy (compass_m_max w)"
  proof -
    from that have "vx (compass_m_max w) - vx (compass_m_min w) \<noteq> 0"
      "vy (compass_m_max w) - vy (compass_m_min w) \<noteq> 0"
      by simp_all
    then show ?thesis
      using good x_num y_num by blast
  qed
  have deg_x: "fp_val fpu (fp_of_int fpu (vx (compass_m_max w) - vx (compass_m_min w))) = 0
      \<and> \<not> fp_finite fpu (x_scaled fpu w v)" if "vx (compass_m_max w) = vx (compass_m_min w)"
    using that x_bad zero by simp
  have deg_y: "fp_val fpu (fp_of_int fpu (vy (compass_m_max w) - vy (compass_m_min w))) = 0
      \<and> \<not> fp_finite fpu (y_scaled fpu w v)" if "vy (compass_m_max w) = vy (compass_m_min w)"
    using that y_bad zero by simp
  from defs nondeg deg_x deg_y show ?thesis
    by blast
qed

theorem heading_division_by_zero_witness:
  "fpu_contract exact_fpu
   \<and> vx (compass_m_min bench) < vx (compass_m_max bench)
   \<and> vy (compass_m_min bench) < vy (compass_m_max bench)
   \<and> fp_number exact_fpu (x_scaled exact_fpu bench \<lparr>vx = 100, vy = 0, vz = 0\<rparr>)
   \<and> fp_number exact_fpu (y_scaled exact_fpu bench \<lparr>vx = 100, vy = 0, vz = 0\<rparr>)
   \<and> vx (compass_m_max (bench\<lparr>compass_m_max := compass_m_min bench\<rparr>))
       = vx (compass_m_min (bench\<lparr>compass_m_max := compass_m_min bench\<rparr>))
   \<and> vy (compass_m_max (bench\<lparr>compass_m_max := compass_m_min bench\<rparr>))
       = vy (compass_m_min (bench\<lparr>compass_m_max := compass_m_min bench\<rparr>))
   \<and> \<not> fp_finite exact_fpu
         (x_scaled exact_fpu (bench\<lparr>compass_m_max := compass_m_min bench\<rparr>)
            \<lparr>vx = 100, vy = 0, vz = 0\<rparr>)
   \<and> \<not> fp_finite exact_fpu
         (y_scaled exact_fpu (bench\<lparr>compass_m_max := compass_m_min bench\<rparr>)
            \<lparr>vx = 100, vy = 0, vz = 0\<rparr>)
   \<and> x_scaled exact_fpu (bench\<lparr>compass_m_max := compass_m_min bench\<rparr>)
         \<lparr>vx = 100, vy = 0, vz = 0\<rparr> = PInf
   \<and> y_scaled exact_fpu (bench\<lparr>compass_m_max := compass_m_min bench\<rparr>)
         \<lparr>vx = 100, vy = 0, vz = 0\<rparr> = PInf
   \<and> heading exact_fpu (bench\<lparr>compass_m_max := compass_m_min bench\<rparr>)
         \<lparr>vx = 100, vy = 0, vz = 0\<rparr> = 45"
proof -
  let ?w = "bench\<lparr>compass_m_max := compass_m_min bench\<rparr>"
  let ?v = "\<lparr>vx = 100, vy = 0, vz = 0\<rparr>"
  have b: "vx (compass_m_min bench) < vx (compass_m_max bench)"
    "vy (compass_m_min bench) < vy (compass_m_max bench)"
    "vx (compass_m_max ?w) = vx (compass_m_min ?w)" "vy (compass_m_max ?w) = vy (compass_m_min ?w)"
    by (simp_all add: bench_def)
  have s: "x_scaled exact_fpu ?w ?v = PInf" "y_scaled exact_fpu ?w ?v = PInf"
    by (simp_all add: x_scaled_def y_scaled_def exact_fields x_sub_def x_inf_def bench_def)
  have h: "heading exact_fpu ?w ?v = 45"
    by (simp add: heading_def s round_macro_def exact_fields c_trunc_def word_sless_alt)
  from heading_division_by_zero [OF exact_fpu_contract, of bench ?v] b(1,2)
  have n: "fp_number exact_fpu (x_scaled exact_fpu bench ?v)"
    "fp_number exact_fpu (y_scaled exact_fpu bench ?v)"
    by blast+
  from heading_division_by_zero [OF exact_fpu_contract, of ?w ?v] b(3,4)
  have f: "\<not> fp_finite exact_fpu (x_scaled exact_fpu ?w ?v)"
    "\<not> fp_finite exact_fpu (y_scaled exact_fpu ?w ?v)"
    by blast+
  from exact_fpu_contract b n f s h show ?thesis
    by blast
qed

text \<open>
  Claim C8. With the bounds -100 and 100 on both axes the vector \<open>(100, 0)\<close> is scaled to
  \<open>(1, 0)\<close>, the angle \<open>atan2 (0, 1)\<close> is 0 degrees, and the heading is 0, on every
  floating-point unit that meets the contract: none of the steps rounds.
\<close>

theorem heading_concrete_case:
  assumes "fpu_contract fpu"
  shows "fp_val fpu
        (x_scaled fpu
           (w\<lparr>compass_m_min := \<lparr>vx = - 100, vy = - 100, vz = a\<rparr>,
              compass_m_max := \<lparr>vx = 100, vy = 100, vz = b\<rparr>\<rparr>) \<lparr>vx = 100, vy = 0, vz = c\<rparr>) = 1
    \<and> fp_val fpu
        (y_scaled fpu
           (w\<lparr>compass_m_min := \<lparr>vx = - 100, vy = - 100, vz = a\<rparr>,
              compass_m_max := \<lparr>vx = 100, vy = 100, vz = b\<rparr>\<rparr>) \<lparr>vx = 100, vy = 0, vz = c\<rparr>) = 0
    \<and> fp_val fpu
        (fp_div fpu
           (fp_mul fpu
              (fp_atan2 fpu
                 (y_scaled fpu
                    (w\<lparr>compass_m_min := \<lparr>vx = - 100, vy = - 100, vz = a\<rparr>,
                       compass_m_max := \<lparr>vx = 100, vy = 100, vz = b\<rparr>\<rparr>)
                    \<lparr>vx = 100, vy = 0, vz = c\<rparr>)
                 (x_scaled fpu
                    (w\<lparr>compass_m_min := \<lparr>vx = - 100, vy = - 100, vz = a\<rparr>,
                       compass_m_max := \<lparr>vx = 100, vy = 100, vz = b\<rparr>\<rparr>)
                    \<lparr>vx = 100, vy = 0, vz = c\<rparr>))
              (fp_of_int fpu 180))
           (fp_pi fpu)) = 0
    \<and> heading fpu
        (w\<lparr>compass_m_min := \<lparr>vx = - 100, vy = - 100, vz = a\<rparr>,
           compass_m_max := \<lparr>vx = 100, vy = 100, vz = b\<rparr>\<rparr>) \<lparr>vx = 100, vy = 0, vz = c\<rparr> = 0"
proof -
  note k = assms
  let ?w = "w\<lparr>compass_m_min := \<lparr>vx = - 100, vy = - 100, vz = a\<rparr>,
              compass_m_max := \<lparr>vx = 100, vy = 100, vz = b\<rparr>\<rparr>"
  let ?v = "\<lparr>vx = 100, vy = 0, vz = c\<rparr>"
  have int_val: "fp_finite fpu (fp_of_int fpu n) \<and> fp_val fpu (fp_of_int fpu n) = real_of_int n"
    if "\<bar>n\<bar> \<le> 1000" for n
    using that contract_of_int(1) [OF k, of n] contract_of_int(3) [OF k, of n] by simp
  have exact: "fp_finite fpu c' \<and> fp_val fpu c' = real_of_int n"
    if "fp_rounds fpu c' (real_of_int n)" "\<bar>n\<bar> \<le> 1000" for c' n
  proof -
    have "2 * real_of_int n = real_of_int (2 * n)" by simp
    moreover from that(2) have "\<bar>2 * n\<bar> \<le> 16777216" by simp
    ultimately show ?thesis
      using fp_rounds_exact [OF that(1), of "2 * n"] by blast
  qed
  \<comment> \<open>the scaled \<open>x\<close>: \<open>2 * 200 / 200 - 1\<close>\<close>
  let ?mx = "fp_mul fpu (fp_of_int fpu 2) (fp_of_int fpu 200)"
  let ?qx = "fp_div fpu ?mx (fp_of_int fpu 200)"
  let ?sx = "fp_sub fpu ?qx (fp_of_int fpu 1)"
  have "fp_rounds fpu ?mx (real_of_int 400)"
    using contract_rounds(3) [OF k, of "fp_of_int fpu 2" "fp_of_int fpu 200"]
      int_val [of 2] int_val [of 200] by simp
  then have mx: "fp_finite fpu ?mx \<and> fp_val fpu ?mx = 400"
    using exact [of ?mx 400] by simp
  have "fp_rounds fpu ?qx (real_of_int 2)"
    using contract_rounds(4) [OF k, of ?mx "fp_of_int fpu 200"] mx int_val [of 200] by simp
  then have qx: "fp_finite fpu ?qx \<and> fp_val fpu ?qx = 2"
    using exact [of ?qx 2] by simp
  have "fp_rounds fpu ?sx (real_of_int 1)"
    using contract_rounds(2) [OF k, of ?qx "fp_of_int fpu 1"] qx int_val [of 1] by simp
  then have sx: "fp_finite fpu ?sx \<and> fp_val fpu ?sx = 1"
    using exact [of ?sx 1] by simp
  \<comment> \<open>the scaled \<open>y\<close>: \<open>2 * 100 / 200 - 1\<close>\<close>
  let ?my = "fp_mul fpu (fp_of_int fpu 2) (fp_of_int fpu 100)"
  let ?qy = "fp_div fpu ?my (fp_of_int fpu 200)"
  let ?sy = "fp_sub fpu ?qy (fp_of_int fpu 1)"
  have "fp_rounds fpu ?my (real_of_int 200)"
    using contract_rounds(3) [OF k, of "fp_of_int fpu 2" "fp_of_int fpu 100"]
      int_val [of 2] int_val [of 100] by simp
  then have my: "fp_finite fpu ?my \<and> fp_val fpu ?my = 200"
    using exact [of ?my 200] by simp
  have "fp_rounds fpu ?qy (real_of_int 1)"
    using contract_rounds(4) [OF k, of ?my "fp_of_int fpu 200"] my int_val [of 200] by simp
  then have qy: "fp_finite fpu ?qy \<and> fp_val fpu ?qy = 1"
    using exact [of ?qy 1] by simp
  have "fp_rounds fpu ?sy (real_of_int 0)"
    using contract_rounds(2) [OF k, of ?qy "fp_of_int fpu 1"] qy int_val [of 1] by simp
  then have sy: "fp_finite fpu ?sy \<and> fp_val fpu ?sy = 0"
    using exact [of ?sy 0] by simp
  have xs: "x_scaled fpu ?w ?v = ?sx" and ys: "y_scaled fpu ?w ?v = ?sy"
    by (simp_all add: x_scaled_def y_scaled_def)
  \<comment> \<open>the angle: \<open>atan2 (0, 1) * 180 / M_PI\<close>\<close>
  let ?t = "fp_atan2 fpu ?sy ?sx"
  let ?m = "fp_mul fpu ?t (fp_of_int fpu 180)"
  let ?d = "fp_div fpu ?m (fp_pi fpu)"
  have t: "fp_finite fpu ?t \<and> fp_val fpu ?t = 0"
    using contract_atan2(1) [OF k, of ?sy ?sx] contract_atan2(3) [OF k, of ?sy ?sx] sx sy
    by (simp add: fp_finite_number)
  have "fp_rounds fpu ?m (real_of_int 0)"
    using contract_rounds(3) [OF k, of ?t "fp_of_int fpu 180"] t int_val [of 180] by simp
  then have m: "fp_finite fpu ?m \<and> fp_val fpu ?m = 0"
    using exact [of ?m 0] by simp
  have p: "fp_finite fpu (fp_pi fpu)" "fp_val fpu (fp_pi fpu) \<noteq> 0"
    using contract_pi [OF k] by simp_all
  have "fp_rounds fpu ?d (real_of_int 0)"
    using contract_rounds(4) [OF k, of ?m "fp_pi fpu"] m p by simp
  then have d: "fp_finite fpu ?d \<and> fp_val fpu ?d = 0"
    using exact [of ?d 0] by simp
  \<comment> \<open>the rounding: \<open>(long)(0 + 0.5)\<close>\<close>
  let ?s = "fp_add fpu ?d (fp_half fpu)"
  have ge: "fp_ge0 fpu ?d"
    using d by (simp add: contract_ge0 [OF k])
  have rs: "fp_rounds fpu ?s (1 / 2)"
    using contract_rounds(1) [OF k, of ?d "fp_half fpu"] d contract_half [OF k] by simp
  have one: "2 * (1 / 2 :: real) = real_of_int 1" "\<bar>1 :: int\<bar> \<le> 16777216"
    by simp_all
  have sf: "fp_finite fpu ?s" and sv: "fp_val fpu ?s = 1 / 2"
    using fp_rounds_exact [OF rs one] by blast+
  have "\<bar>fp_val fpu ?s\<bar> < 2147483648"
    by (simp add: sv)
  with sf have "fp_to_long fpu ?s = c_trunc (fp_val fpu ?s)"
    using k by (intro contract_to_long)
  then have "fp_to_long fpu ?s = c_trunc (1 / 2)"
    by (simp only: sv)
  then have r: "round_macro fpu ?d = 0"
    using ge by (simp add: round_macro_def c_trunc_def)
  have h: "heading fpu ?w ?v = 0"
    by (simp add: heading_def xs ys r word_sless_alt)
  from sx sy d h show ?thesis
    by (simp add: xs ys)
qed

theorem heading_concrete_case_witness:
  "fpu_contract exact_fpu
   \<and> x_scaled exact_fpu bench \<lparr>vx = 100, vy = 0, vz = 0\<rparr> = Fin 1
   \<and> y_scaled exact_fpu bench \<lparr>vx = 100, vy = 0, vz = 0\<rparr> = Fin 0
   \<and> x_atan2 (Fin 0) (Fin 1) = Fin 0
   \<and> heading exact_fpu bench \<lparr>vx = 100, vy = 0, vz = 0\<rparr> = 0"
proof -
  have w: "bench = bench\<lparr>compass_m_min := \<lparr>vx = - 100, vy = - 100, vz = 0\<rparr>,
                        compass_m_max := \<lparr>vx = 100, vy = 100, vz = 0\<rparr>\<rparr>"
    by (simp add: bench_def)
  have s: "x_scaled exact_fpu bench \<lparr>vx = 100, vy = 0, vz = 0\<rparr> = Fin 1"
    "y_scaled exact_fpu bench \<lparr>vx = 100, vy = 0, vz = 0\<rparr> = Fin 0"
    "x_atan2 (Fin 0) (Fin 1) = Fin 0"
    by (simp_all add: x_scaled_def y_scaled_def exact_fields x_sub_def atan2_def bench_def)
  from heading_concrete_case [OF exact_fpu_contract, where w = bench and a = 0 and b = 0 and c = 0]
  have "heading exact_fpu bench \<lparr>vx = 100, vy = 0, vz = 0\<rparr> = 0"
    using w by simp
  with s exact_fpu_contract show ?thesis by simp
qed

text \<open>
  Claim C9. The heading does not depend on the \<open>z\<close> component: two vectors that agree on
  \<open>x\<close> and \<open>y\<close> have the same heading under the same bounds.
\<close>

theorem heading_ignores_z:
  assumes "vx u = vx v" and "vy u = vy v"
  shows "heading fpu w u = heading fpu w v"
  using assms by (simp add: heading_def x_scaled_def y_scaled_def)

theorem heading_ignores_z_witness:
  "vx \<lparr>vx = 30, vy = - 40, vz = 7\<rparr> = vx \<lparr>vx = 30, vy = - 40, vz = - 900\<rparr>
   \<and> vy \<lparr>vx = 30, vy = - 40, vz = 7\<rparr> = vy \<lparr>vx = 30, vy = - 40, vz = - 900\<rparr>
   \<and> heading exact_fpu bench \<lparr>vx = 30, vy = - 40, vz = 7\<rparr>
       = heading exact_fpu bench \<lparr>vx = 30, vy = - 40, vz = - 900\<rparr>"
  using heading_ignores_z [of "\<lparr>vx = 30, vy = - 40, vz = 7\<rparr>" "\<lparr>vx = 30, vy = - 40, vz = - 900\<rparr>"
      exact_fpu bench]
  by simp

subsection \<open>Calibration\<close>

text \<open>
  Claim C4, as stated: the calibration starts from \<open>running_min = 2047\<close> and
  \<open>running_max = -2047\<close> on each axis. The sketch starts \<open>running_max\<close> from -2048.
\<close>

theorem running_max_init_counterexample:
  "\<not> (running_min_init = \<lparr>vx = 2047, vy = 2047, vz = 2047\<rparr>
      \<and> running_max_init = \<lparr>vx = - 2047, vy = - 2047, vz = - 2047\<rparr>)"
  by (simp add: running_max_init_def)

text \<open>
  Claim C4, amended. Before sampling begins \<open>running_min\<close> is 2047 on each axis and
  \<open>running_max\<close> is -2048 on each axis.
\<close>

theorem calibration_initial_values:
  "running_min_init = \<lparr>vx = 2047, vy = 2047, vz = 2047\<rparr>
   \<and> running_max_init = \<lparr>vx = - 2048, vy = - 2048, vz = - 2048\<rparr>"
  by (simp add: running_min_init_def running_max_init_def)

lemma calibration_loop_done:
  "calibration_loop CALIBRATION_SAMPLES s = s"
  by (cases s) (simp add: calibration_loop.simps)

lemma calibration_loop_step:
  assumes "index < CALIBRATION_SAMPLES"
  shows "calibration_loop index (mn, mx, w) =
    calibration_loop (Suc index)
      (mn\<lparr>vx := min (vx mn) (vx (sensor w (reads w))), vy := min (vy mn) (vy (sensor w (reads w)))\<rparr>,
       mx\<lparr>vx := max (vx mx) (vx (sensor w (reads w))), vy := max (vy mx) (vy (sensor w (reads w)))\<rparr>,
       emit [Delay 50] (compass_read w))"
  using assms
  by (subst calibration_loop.simps) (simp add: Let_def compass_read_def emit_def)

lemma calibration_loop_result:
  assumes "index + n = CALIBRATION_SAMPLES"
    and "calibration_loop index (mn, mx, w) = (mn', mx', w')"
  shows "vx mn' = fold min (map vx (map (sensor w) [reads w ..< reads w + n])) (vx mn)
    \<and> vy mn' = fold min (map vy (map (sensor w) [reads w ..< reads w + n])) (vy mn)
    \<and> vx mx' = fold max (map vx (map (sensor w) [reads w ..< reads w + n])) (vx mx)
    \<and> vy mx' = fold max (map vy (map (sensor w) [reads w ..< reads w + n])) (vy mx)
    \<and> compass_m_min w' = compass_m_min w \<and> compass_m_max w' = compass_m_max w
    \<and> sensor w' = sensor w \<and> reads w' = reads w + n
    \<and> target_heading w' = target_heading w
    \<and> trace w' = trace w @ replicate n (Delay 50)"
  using assms
proof (induction n arbitrary: index mn mx w)
  case 0
  then show ?case by (simp add: calibration_loop_done)
next
  case (Suc n)
  then have lt: "index < CALIBRATION_SAMPLES" and nxt: "Suc index + n = CALIBRATION_SAMPLES"
    by simp_all
  let ?r = "sensor w (reads w)"
  let ?w = "emit [Delay 50] (compass_read w)"
  have run: "calibration_loop (Suc index)
      (mn\<lparr>vx := min (vx mn) (vx ?r), vy := min (vy mn) (vy ?r)\<rparr>,
       mx\<lparr>vx := max (vx mx) (vx ?r), vy := max (vy mx) (vy ?r)\<rparr>, ?w) = (mn', mx', w')"
    using Suc.prems(2) by (simp add: calibration_loop_step [OF lt])
  have upt: "[reads w ..< reads w + Suc n] = reads w # [Suc (reads w) ..< Suc (reads w) + n]"
    by (simp add: upt_conv_Cons)
  have w: "sensor ?w = sensor w" "reads ?w = Suc (reads w)" "compass_m_min ?w = compass_m_min w"
    "compass_m_max ?w = compass_m_max w" "target_heading ?w = target_heading w"
    "trace ?w = trace w @ [Delay 50]"
    by (simp_all add: emit_def compass_read_def)
  from Suc.IH [OF nxt run] show ?case
    unfolding w upt by (simp add: min.commute max.commute replicate_app_Cons_same)
qed


lemma setup_sketch_bounds:
  "vx (compass_m_min (setup_sketch w)) = fold min (map vx (calibration_samples w)) 2047
   \<and> vy (compass_m_min (setup_sketch w)) = fold min (map vy (calibration_samples w)) 2047
   \<and> vx (compass_m_max (setup_sketch w)) = fold max (map vx (calibration_samples w)) (- 2048)
   \<and> vy (compass_m_max (setup_sketch w)) = fold max (map vy (calibration_samples w)) (- 2048)
   \<and> vz (compass_m_min (setup_sketch w)) = vz (compass_m_min w)
   \<and> vz (compass_m_max (setup_sketch w)) = vz (compass_m_max w)"
proof -
  let ?w = "emit [SetRightSpeed (- SPEED)] (emit [SetLeftSpeed SPEED] (emit [WaitForButton] w))"
  obtain mn mx w' where
    run: "calibration_loop 0 (running_min_init, running_max_init, ?w) = (mn, mx, w')"
    by (metis prod_cases3)
  have start: "sensor ?w = sensor w" "reads ?w = reads w"
    "compass_m_min ?w = compass_m_min w" "compass_m_max ?w = compass_m_max w"
    by (simp_all add: emit_def)
  have "0 + CALIBRATION_SAMPLES = CALIBRATION_SAMPLES" by simp
  from calibration_loop_result [OF this run]
  have res: "vx mn = fold min (map vx (calibration_samples w)) 2047"
    "vy mn = fold min (map vy (calibration_samples w)) 2047"
    "vx mx = fold max (map vx (calibration_samples w)) (- 2048)"
    "vy mx = fold max (map vy (calibration_samples w)) (- 2048)"
    "compass_m_min w' = compass_m_min w" "compass_m_max w' = compass_m_max w"
    unfolding start by (simp_all add: calibration_samples_def running_min_init_def running_max_init_def)
  have "setup_sketch w =
      emit [WaitForButton]
        ((emit [SetRightSpeed 0] (emit [SetLeftSpeed 0] w'))
          \<lparr>compass_m_max := (compass_m_max w')\<lparr>vx := vx mx, vy := vy mx\<rparr>,
           compass_m_min := (compass_m_min w')\<lparr>vx := vx mn, vy := vy mn\<rparr>\<rparr>)"
    by (simp add: setup_sketch_def Let_def run) (simp add: emit_def)
  then show ?thesis
    by (simp add: emit_def res)
qed

text \<open>
  Claim C5. The calibration takes exactly 70 readings, and the bounds it stores are, on
  the \<open>x\<close> and the \<open>y\<close> axis, the minimum (the maximum) of the initial value and of the
  sampled components. If two of the readings differ in \<open>x\<close> and two differ in \<open>y\<close>, the
  stored maximum is above the stored minimum on both axes.
\<close>

theorem calibration_bounds:
  "length (calibration_samples w) = 70
   \<and> vx (compass_m_min (setup_sketch w)) = Min (set (vx running_min_init # map vx (calibration_samples w)))
   \<and> vy (compass_m_min (setup_sketch w)) = Min (set (vy running_min_init # map vy (calibration_samples w)))
   \<and> vx (compass_m_max (setup_sketch w)) = Max (set (vx running_max_init # map vx (calibration_samples w)))
   \<and> vy (compass_m_max (setup_sketch w)) = Max (set (vy running_max_init # map vy (calibration_samples w)))
   \<and> ((\<exists>a\<in>set (calibration_samples w). \<exists>b\<in>set (calibration_samples w). vx a \<noteq> vx b)
        \<and> (\<exists>a\<in>set (calibration_samples w). \<exists>b\<in>set (calibration_samples w). vy a \<noteq> vy b)
      \<longrightarrow> vx (compass_m_min (setup_sketch w)) < vx (compass_m_max (setup_sketch w))
        \<and> vy (compass_m_min (setup_sketch w)) < vy (compass_m_max (setup_sketch w)))"
proof -
  let ?S = "calibration_samples w"
  let ?w = "setup_sketch w"
  have len: "length ?S = 70"
    by (simp add: calibration_samples_def CALIBRATION_SAMPLES_def)
  have min_x: "vx (compass_m_min ?w) = Min (set (vx running_min_init # map vx ?S))"
    and min_y: "vy (compass_m_min ?w) = Min (set (vy running_min_init # map vy ?S))"
    and max_x: "vx (compass_m_max ?w) = Max (set (vx running_max_init # map vx ?S))"
    and max_y: "vy (compass_m_max ?w) = Max (set (vy running_max_init # map vy ?S))"
    using setup_sketch_bounds [of w]
    by (simp_all only: Min.set_eq_fold Max.set_eq_fold running_min_init_def running_max_init_def
        vector.simps)
  have x_le: "vx (compass_m_min ?w) \<le> vx a \<and> vx a \<le> vx (compass_m_max ?w)" if "a \<in> set ?S" for a
    unfolding min_x max_x using that by (intro conjI Min_le Max_ge) simp_all
  have y_le: "vy (compass_m_min ?w) \<le> vy a \<and> vy a \<le> vy (compass_m_max ?w)" if "a \<in> set ?S" for a
    unfolding min_y max_y using that by (intro conjI Min_le Max_ge) simp_all
  have x_lt: "vx (compass_m_min ?w) < vx (compass_m_max ?w)"
    if "a \<in> set ?S" "b \<in> set ?S" "vx a \<noteq> vx b" for a b
    using x_le [OF that(1)] x_le [OF that(2)] that(3) by linarith
  have y_lt: "vy (compass_m_min ?w) < vy (compass_m_max ?w)"
    if "a \<in> set ?S" "b \<in> set ?S" "vy a \<noteq> vy b" for a b
    using y_le [OF that(1)] y_le [OF that(2)] that(3) by linarith
  from x_lt y_lt have "(\<exists>a\<in>set ?S. \<exists>b\<in>set ?S. vx a \<noteq> vx b) \<and> (\<exists>a\<in>set ?S. \<exists>b\<in>set ?S. vy a \<noteq> vy b)
      \<longrightarrow> vx (compass_m_min ?w) < vx (compass_m_max ?w) \<and> vy (compass_m_min ?w) < vy (compass_m_max ?w)"
    by blast
  with len min_x min_y max_x max_y show ?thesis by blast
qed

theorem calibration_bounds_witness:
  "(\<exists>a\<in>set (calibration_samples (bench\<lparr>sensor := \<lambda>n. \<lparr>vx = int n, vy = 5 - int n, vz = 0\<rparr>\<rparr>)).
      \<exists>b\<in>set (calibration_samples (bench\<lparr>sensor := \<lambda>n. \<lparr>vx = int n, vy = 5 - int n, vz = 0\<rparr>\<rparr>)).
        vx a \<noteq> vx b)
   \<and> (\<exists>a\<in>set (calibration_samples (bench\<lparr>sensor := \<lambda>n. \<lparr>vx = int n, vy = 5 - int n, vz = 0\<rparr>\<rparr>)).
      \<exists>b\<in>set (calibration_samples (bench\<lparr>sensor := \<lambda>n. \<lparr>vx = int n, vy = 5 - int n, vz = 0\<rparr>\<rparr>)).
        vy a \<noteq> vy b)
   \<and> vx (compass_m_min (setup_sketch (bench\<lparr>sensor := \<lambda>n. \<lparr>vx = int n, vy = 5 - int n, vz = 0\<rparr>\<rparr>))) = 0
   \<and> vx (compass_m_max (setup_sketch (bench\<lparr>sensor := \<lambda>n. \<lparr>vx = int n, vy = 5 - int n, vz = 0\<rparr>\<rparr>))) = 69
   \<and> vy (compass_m_min (setup_sketch (bench\<lparr>sensor := \<lambda>n. \<lparr>vx = int n, vy = 5 - int n, vz = 0\<rparr>\<rparr>))) = - 64
   \<and> vy (compass_m_max (setup_sketch (bench\<lparr>sensor := \<lambda>n. \<lparr>vx = int n, vy = 5 - int n, vz = 0\<rparr>\<rparr>))) = 5
   \<and> vx (compass_m_min (setup_sketch (bench\<lparr>sensor := \<lambda>n. \<lparr>vx = int n, vy = 5 - int n, vz = 0\<rparr>\<rparr>)))
      < vx (compass_m_max (setup_sketch (bench\<lparr>sensor := \<lambda>n. \<lparr>vx = int n, vy = 5 - int n, vz = 0\<rparr>\<rparr>)))
   \<and> vy (compass_m_min (setup_sketch (bench\<lparr>sensor := \<lambda>n. \<lparr>vx = int n, vy = 5 - int n, vz = 0\<rparr>\<rparr>)))
      < vy (compass_m_max (setup_sketch (bench\<lparr>sensor := \<lambda>n. \<lparr>vx = int n, vy = 5 - int n, vz = 0\<rparr>\<rparr>)))"
proof -
  let ?w = "bench\<lparr>sensor := \<lambda>n. \<lparr>vx = int n, vy = 5 - int n, vz = 0\<rparr>\<rparr>"
  have x: "\<exists>a\<in>set (calibration_samples ?w). \<exists>b\<in>set (calibration_samples ?w). vx a \<noteq> vx b"
    by code_simp
  have y: "\<exists>a\<in>set (calibration_samples ?w). \<exists>b\<in>set (calibration_samples ?w). vy a \<noteq> vy b"
    by code_simp
  have v: "Min (set (vx running_min_init # map vx (calibration_samples ?w))) = 0"
    "Max (set (vx running_max_init # map vx (calibration_samples ?w))) = 69"
    "Min (set (vy running_min_init # map vy (calibration_samples ?w))) = - 64"
    "Max (set (vy running_max_init # map vy (calibration_samples ?w))) = 5"
    by code_simp+
  show ?thesis
    using calibration_bounds [of ?w] x y v by simp
qed

subsection \<open>The turning speed\<close>

lemma wrap16: "signed_take_bit 15 (x::int) = (x + 32768) mod 65536 - 32768"
  by (simp add: signed_take_bit_eq_take_bit_shift take_bit_eq_mod)

lemma wrap16_above:
  fixes x :: int
  assumes "32768 \<le> x" "x < 98304"
  shows "signed_take_bit 15 x = x - 65536"
proof -
  have "x + 32768 = x - 32768 + 65536" by simp
  then have "(x + 32768) mod 65536 = (x - 32768 + 65536) mod 65536" by (rule arg_cong)
  also have "\<dots> = (x - 32768) mod 65536" by (simp only: mod_add_self2)
  also have "\<dots> = x - 32768" using assms by (intro mod_pos_pos_trivial) simp_all
  finally show ?thesis by (simp add: wrap16)
qed

lemma wrap16_below:
  fixes x :: int
  assumes "- 98304 \<le> x" "x < - 32768"
  shows "signed_take_bit 15 x = x + 65536"
proof -
  have "(x + 32768 + 65536) mod 65536 = (x + 32768) mod 65536" by (simp only: mod_add_self2)
  moreover have "(x + 32768 + 65536) mod 65536 = x + 32768 + 65536"
    using assms by (intro mod_pos_pos_trivial) simp_all
  ultimately show ?thesis by (simp add: wrap16)
qed

lemma speed_product:
  fixes k :: int
  assumes "\<bar>k\<bar> \<le> 180"
  shows "signed_take_bit 15 (200 * k) =
    (if 164 \<le> k then 200 * k - 65536 else if k \<le> - 164 then 200 * k + 65536 else 200 * k)"
proof -
  consider (up) "164 \<le> k" | (down) "k \<le> - 164" | (mid) "- 164 < k" "k < 164"
    by linarith
  then show ?thesis
  proof cases
    case up
    with assms have "signed_take_bit 15 (200 * k) = 200 * k - 65536"
      by (intro wrap16_above) simp_all
    with up show ?thesis by simp
  next
    case down
    with assms have "signed_take_bit 15 (200 * k) = 200 * k + 65536"
      by (intro wrap16_below) simp_all
    with down show ?thesis by simp
  next
    case mid
    then have "signed_take_bit 15 (200 * k) = 200 * k"
      by (intro signed_take_bit_int_eq_self) simp_all
    with mid show ?thesis by simp
  qed
qed

lemma speed_product_bounds:
  fixes k :: int
  assumes "5 \<le> \<bar>k\<bar>" "\<bar>k\<bar> \<le> 180"
  shows "1000 \<le> \<bar>signed_take_bit 15 (200 * k)\<bar> \<and> \<bar>signed_take_bit 15 (200 * k)\<bar> \<le> 36000"
  using assms unfolding speed_product [OF assms(2)] by (simp split: if_splits) linarith?

lemma sdiv_180_bounds:
  fixes p :: int
  assumes "1000 \<le> \<bar>p\<bar>" "\<bar>p\<bar> \<le> 36000"
  shows "\<bar>p sdiv 180\<bar> = \<bar>p\<bar> div 180 \<and> 5 \<le> \<bar>p sdiv 180\<bar> \<and> \<bar>p sdiv 180\<bar> \<le> 200
    \<and> (p sdiv 180 < 0 \<longleftrightarrow> p < 0)"
proof -
  have lo: "5 \<le> \<bar>p\<bar> div 180"
    using zdiv_mono1 [of 1000 "\<bar>p\<bar>" 180] assms by simp
  have hi: "\<bar>p\<bar> div 180 \<le> 200"
    using zdiv_mono1 [of "\<bar>p\<bar>" 36000 180] assms by simp
  have q: "p sdiv 180 = (if p < 0 then - (\<bar>p\<bar> div 180) else \<bar>p\<bar> div 180)"
    using assms by (simp add: signed_divide_int_def sgn_if)
  from lo hi q show ?thesis by (simp split: if_splits)
qed

lemma speed_bounds_int:
  fixes k :: int
  assumes "5 \<le> \<bar>k\<bar>" "\<bar>k\<bar> \<le> 180"
  defines "s0 \<equiv> signed_take_bit 15 (200 * k) sdiv 180"
  shows "5 \<le> \<bar>s0\<bar> \<and> \<bar>s0\<bar> \<le> 200"
  unfolding s0_def
  using sdiv_180_bounds [of "signed_take_bit 15 (200 * k)"] speed_product_bounds [OF assms(1,2)]
  by simp

lemma sint_SPEED_times: "sint (SPEED * rh) = signed_take_bit 15 (200 * sint rh)"
  by (simp add: SPEED_def sint_word_mult)

lemma sint_int_div:
  assumes "- 32768 \<le> sint a sdiv sint b" "sint a sdiv sint b < 32768"
  shows "sint (int_div a b) = sint a sdiv sint b"
  using assms by (simp add: int_div_def sint16_of_int)

lemma sint_int_mod:
  assumes "- 32768 \<le> sint a smod sint b" "sint a smod sint b < 32768"
  shows "sint (int_mod a b) = sint a smod sint b"
  using assms by (simp add: int_mod_def sint16_of_int)

lemma sint_abs_macro:
  assumes "- 32768 < sint a"
  shows "sint (abs_macro a) = \<bar>sint a\<bar>"
  using assms by (auto simp add: abs_macro_def word_sless_alt sint16_minus)

lemma straight_test:
  assumes "- 32768 < sint rh"
  shows "abs_macro rh <s DEVIATION_THRESHOLD \<longleftrightarrow> \<bar>sint rh\<bar> < 5"
  using assms by (simp add: word_sless_alt sint_abs_macro DEVIATION_THRESHOLD_def)

lemma turn_speed:
  assumes "5 \<le> \<bar>sint rh\<bar>" "\<bar>sint rh\<bar> \<le> 180"
  defines "speed0 \<equiv> int_div (SPEED * rh) 180"
  defines "speed \<equiv> (if speed0 <s 0 then speed0 - 100 else speed0 + 100)"
  shows "sint speed0 = signed_take_bit 15 (200 * sint rh) sdiv 180"
    and "sint speed = (if sint speed0 < 0 then sint speed0 - 100 else sint speed0 + 100)"
    and "5 \<le> \<bar>sint speed0\<bar> \<and> \<bar>sint speed0\<bar> \<le> 200"
    and "100 < \<bar>sint speed\<bar> \<and> \<bar>sint speed\<bar> \<le> 300"
    and "sint (- speed) = - sint speed"
proof -
  let ?q = "signed_take_bit 15 (200 * sint rh) sdiv 180"
  have q: "5 \<le> \<bar>?q\<bar> \<and> \<bar>?q\<bar> \<le> 200"
    using assms(1,2) by (rule speed_bounds_int)
  from q have "- 32768 \<le> ?q" and "?q < 32768"
    by linarith+
  then have "sint (int_div (SPEED * rh) 180) = sint (SPEED * rh) sdiv sint (180 :: int16)"
    by (intro sint_int_div) (simp_all add: sint_SPEED_times)
  then show s0: "sint speed0 = ?q"
    by (simp add: speed0_def sint_SPEED_times)
  from q s0 show b0: "5 \<le> \<bar>sint speed0\<bar> \<and> \<bar>sint speed0\<bar> \<le> 200" by simp
  from b0 have r0: "- 200 \<le> sint speed0" "sint speed0 \<le> 200"
    by linarith+
  have minus: "sint (speed0 - 100) = sint speed0 - 100"
    using r0 by (intro sint16_diff [THEN trans]) simp_all
  have plus: "sint (speed0 + 100) = sint speed0 + 100"
    using r0 by (intro sint16_add [THEN trans]) simp_all
  show s: "sint speed = (if sint speed0 < 0 then sint speed0 - 100 else sint speed0 + 100)"
    by (simp add: speed_def word_sless_alt minus plus)
  from b0 s show b: "100 < \<bar>sint speed\<bar> \<and> \<bar>sint speed\<bar> \<le> 300"
    by (simp split: if_splits)
  then have "- 32768 < sint speed"
    by linarith
  then show "sint (- speed) = - sint speed"
    by (rule sint16_minus)
qed


lemma turn_speed_any:
  defines "q rh \<equiv> int_div (SPEED * rh) 180"
  defines "s rh \<equiv> (if q rh <s 0 then q rh - 100 else q rh + 100)"
  shows "\<bar>sint (q rh)\<bar> \<le> 182" and "\<bar>sint (s rh)\<bar> \<le> 282" and "sint (- s rh) = - sint (s rh)"
proof -
  let ?p = "sint (SPEED * rh)"
  have lo: "- 32768 \<le> ?p" and hi: "?p < 32768"
    using sint_ge [of "SPEED * rh"] sint_lt [of "SPEED * rh"] by simp_all
  then have "\<bar>?p\<bar> div 180 \<le> 32768 div 180"
    by (intro zdiv_mono1) simp_all
  then have d: "0 \<le> \<bar>?p\<bar> div 180" "\<bar>?p\<bar> div 180 \<le> 182"
    by (simp_all add: pos_imp_zdiv_nonneg_iff)
  have "?p sdiv 180 = (if ?p < 0 then - (\<bar>?p\<bar> div 180) else \<bar>?p\<bar> div 180)"
    by (simp add: signed_divide_int_def sgn_if)
  with d have b: "- 182 \<le> ?p sdiv 180" "?p sdiv 180 \<le> 182"
    by (simp_all split: if_splits)
  then have "sint (int_div (SPEED * rh) 180) = ?p sdiv sint (180 :: int16)"
    by (intro sint_int_div) simp_all
  with b have r: "- 182 \<le> sint (q rh)" "sint (q rh) \<le> 182"
    by (simp_all add: q_def)
  then show "\<bar>sint (q rh)\<bar> \<le> 182" by linarith
  have minus: "sint (q rh - 100) = sint (q rh) - 100"
    using r by (intro sint16_diff [THEN trans]) simp_all
  have plus: "sint (q rh + 100) = sint (q rh) + 100"
    using r by (intro sint16_add [THEN trans]) simp_all
  have v: "sint (s rh) = (if sint (q rh) < 0 then sint (q rh) - 100 else sint (q rh) + 100)"
    by (simp add: s_def word_sless_alt minus plus)
  with r show t: "\<bar>sint (s rh)\<bar> \<le> 282"
    by (simp split: if_splits)
  then have "- 32768 < sint (s rh)" by linarith
  then show "sint (- s rh) = - sint (s rh)"
    by (rule sint16_minus)
qed

subsection \<open>The average heading and the control cycle\<close>

lemma emit_fields:
  "trace (emit es w) = trace w @ es"
  "compass_m (emit es w) = compass_m w"
  "compass_m_min (emit es w) = compass_m_min w"
  "compass_m_max (emit es w) = compass_m_max w"
  "sensor (emit es w) = sensor w"
  "reads (emit es w) = reads w"
  "target_heading (emit es w) = target_heading w"
  by (simp_all add: emit_def)

lemma calibrated_emit: "calibrated (emit es w) = calibrated w"
  by (simp add: calibrated_def emit_fields)

lemma average_loop_done: "average_loop 10 s = s"
  by (cases s) (simp add: average_loop.simps)

lemma average_loop_step:
  assumes "i < 10"
  shows "average_loop i (avg, w) =
    average_loop (Suc i)
      (avg\<lparr>vx := vx avg + vx (sensor w (reads w)), vy := vy avg + vy (sensor w (reads w))\<rparr>,
       compass_read w)"
  using assms by (subst average_loop.simps) (simp add: Let_def compass_read_def)

lemma average_loop_result:
  assumes "i + n = 10"
    and "average_loop i (avg, w) = (avg', w')"
  shows "vx avg' = vx avg + sum_list (map vx (map (sensor w) [reads w ..< reads w + n]))
    \<and> vy avg' = vy avg + sum_list (map vy (map (sensor w) [reads w ..< reads w + n]))
    \<and> compass_m_min w' = compass_m_min w \<and> compass_m_max w' = compass_m_max w
    \<and> sensor w' = sensor w \<and> reads w' = reads w + n
    \<and> target_heading w' = target_heading w \<and> trace w' = trace w"
  using assms
proof (induction n arbitrary: i avg w)
  case 0
  then show ?case by (simp add: average_loop_done)
next
  case (Suc n)
  then have lt: "i < 10" and nxt: "Suc i + n = 10"
    by simp_all
  let ?r = "sensor w (reads w)"
  let ?w = "compass_read w"
  have run: "average_loop (Suc i) (avg\<lparr>vx := vx avg + vx ?r, vy := vy avg + vy ?r\<rparr>, ?w) = (avg', w')"
    using Suc.prems(2) by (simp add: average_loop_step [OF lt])
  have upt: "[reads w ..< reads w + Suc n] = reads w # [Suc (reads w) ..< Suc (reads w) + n]"
    by (simp add: upt_conv_Cons)
  have w: "sensor ?w = sensor w" "reads ?w = Suc (reads w)" "compass_m_min ?w = compass_m_min w"
    "compass_m_max ?w = compass_m_max w" "target_heading ?w = target_heading w"
    "trace ?w = trace w"
    by (simp_all add: compass_read_def)
  from Suc.IH [OF nxt run] show ?case
    unfolding w upt by simp
qed

lemma heading_bounds_only:
  assumes "compass_m_min w' = compass_m_min w" "compass_m_max w' = compass_m_max w"
  shows "heading fpu w' v = heading fpu w v"
  using assms by (simp add: heading_def x_scaled_def y_scaled_def)

text \<open>What \<^verbatim>\<open>averageHeading()\<close> leaves as it was, whatever the floating-point unit.\<close>

lemma averageHeading_frame:
  assumes "averageHeading fpu w = (h, w')"
  shows "trace w' = trace w" and "target_heading w' = target_heading w"
    and "compass_m_min w' = compass_m_min w" and "compass_m_max w' = compass_m_max w"
    and "sensor w' = sensor w" and "reads w' = reads w + 10"
    and "\<exists>avg. h = heading fpu w avg"
proof -
  obtain avg w1 where run: "average_loop 0 (\<lparr>vx = 0, vy = 0, vz = 0\<rparr>, w) = (avg, w1)"
    by (metis prod.exhaust)
  have "0 + 10 = (10::nat)" by simp
  from average_loop_result [OF this run]
  have frame: "compass_m_min w1 = compass_m_min w" "compass_m_max w1 = compass_m_max w"
    "sensor w1 = sensor w" "reads w1 = reads w + 10"
    "target_heading w1 = target_heading w" "trace w1 = trace w"
    by simp_all
  let ?avg = "avg\<lparr>vx := fp_to_long fpu (fp_div fpu (fp_of_int fpu (vx avg)) (fp_of_int fpu 10)),
                 vy := fp_to_long fpu (fp_div fpu (fp_of_int fpu (vy avg)) (fp_of_int fpu 10))\<rparr>"
  have "averageHeading fpu w = (heading fpu w1 ?avg, w1)"
    by (simp add: averageHeading_def Let_def run)
  with assms have e: "w' = w1" "h = heading fpu w1 ?avg"
    by auto
  from e frame show "trace w' = trace w" "target_heading w' = target_heading w"
    "compass_m_min w' = compass_m_min w" "compass_m_max w' = compass_m_max w"
    "sensor w' = sensor w" "reads w' = reads w + 10"
    by simp_all
  from e have "h = heading fpu w ?avg"
    using heading_bounds_only [OF frame(1,2)] by simp
  then show "\<exists>avg. h = heading fpu w avg" by blast
qed

lemma averageHeading_calibrated:
  assumes "fpu_contract fpu" and "calibrated w" and "averageHeading fpu w = (h, w')"
  shows "0 \<le> sint h \<and> sint h < 360" and "calibrated w'"
proof -
  from averageHeading_frame(7) [OF assms(3)] obtain avg where "h = heading fpu w avg" ..
  then show "0 \<le> sint h \<and> sint h < 360"
    using heading_calibrated(1) [OF assms(1,2)] by simp
  from averageHeading_frame(3,4) [OF assms(3)] assms(2) show "calibrated w'"
    by (simp add: calibrated_def)
qed

lemma sint_next_target:
  assumes "0 \<le> sint h" "sint h < 360"
  shows "sint (int_mod (h + 90) 360) = (sint h + 90) mod 360"
proof -
  have s: "sint (h + 90) = sint h + 90"
    using assms by (intro sint16_add [THEN trans]) simp_all
  have m: "(sint h + 90) smod 360 = (sint h + 90) mod 360"
    using assms by (simp add: signed_modulo_int_def sgn_if)
  have "0 \<le> (sint h + 90) mod 360" "(sint h + 90) mod 360 < 360"
    by simp_all
  then have "sint (int_mod (h + 90) 360) = sint (h + 90) smod sint (360 :: int16)"
    by (intro sint_int_mod) (simp_all add: s m)
  then show ?thesis by (simp add: s m)
qed

lemma loop_steer_straight:
  assumes "target_heading w = Some target"
    and "abs_macro (relativeHeading heading_now target) <s DEVIATION_THRESHOLD"
    and "averageHeading fpu (emit [SetSpeeds SPEED SPEED, Delay 1000, SetSpeeds 0 0, Delay 100] w)
      = (h, w')"
  shows "loop_steer fpu heading_now w = Some (w'\<lparr>target_heading := Some (int_mod (h + 90) 360)\<rparr>)"
    and "trace w' = trace w @ [SetSpeeds SPEED SPEED, Delay 1000, SetSpeeds 0 0, Delay 100]"
    and "compass_m_min w' = compass_m_min w" and "compass_m_max w' = compass_m_max w"
proof -
  let ?w = "emit [SetSpeeds SPEED SPEED, Delay 1000, SetSpeeds 0 0, Delay 100] w"
  have chain: "emit [Delay 100] (emit [SetSpeeds 0 0] (emit [Delay 1000] (emit [SetSpeeds SPEED SPEED] w))) = ?w"
    by (simp add: emit_def)
  show "loop_steer fpu heading_now w = Some (w'\<lparr>target_heading := Some (int_mod (h + 90) 360)\<rparr>)"
    using assms(1,2) by (simp add: loop_steer_def Let_def chain assms(3))
  from averageHeading_frame(1,3,4) [OF assms(3)]
  show "trace w' = trace w @ [SetSpeeds SPEED SPEED, Delay 1000, SetSpeeds 0 0, Delay 100]"
    "compass_m_min w' = compass_m_min w" "compass_m_max w' = compass_m_max w"
    by (simp_all add: emit_fields)
qed

lemma loop_steer_turn:
  assumes "target_heading w = Some target"
    and "\<not> abs_macro (relativeHeading heading_now target) <s DEVIATION_THRESHOLD"
  shows "loop_steer fpu heading_now w =
    Some (emit [SetSpeeds
        (if int_div (SPEED * relativeHeading heading_now target) 180 <s 0
         then int_div (SPEED * relativeHeading heading_now target) 180 - 100
         else int_div (SPEED * relativeHeading heading_now target) 180 + 100)
        (- (if int_div (SPEED * relativeHeading heading_now target) 180 <s 0
         then int_div (SPEED * relativeHeading heading_now target) 180 - 100
         else int_div (SPEED * relativeHeading heading_now target) 180 + 100))] w)"
  using assms by (simp add: loop_steer_def Let_def)

lemma relativeHeading_range:
  assumes "0 \<le> sint a" "sint a < 360" "0 \<le> sint b" "sint b < 360"
  shows "\<bar>sint (relativeHeading a b)\<bar> \<le> 180"
  using assms by (simp add: sint_relativeHeading) linarith

text \<open>
  One call of the loop body after the measurement: the events it adds carry speeds of at most
  300 in absolute value, for every heading and every target.
\<close>

lemma loop_steer_result:
  assumes "target_heading w = Some target"
  shows "\<exists>w' new. loop_steer fpu heading_now w = Some w' \<and> trace w' = trace w @ new
    \<and> (\<forall>e\<in>set new. \<forall>s\<in>set (motor_speeds e). \<bar>sint s\<bar> \<le> 300)
    \<and> compass_m_min w' = compass_m_min w \<and> compass_m_max w' = compass_m_max w
    \<and> (fpu_contract fpu \<and> calibrated w \<and> target_ok w \<longrightarrow> target_ok w')"
proof (cases "abs_macro (relativeHeading heading_now target) <s DEVIATION_THRESHOLD")
  case True
  let ?w = "emit [SetSpeeds SPEED SPEED, Delay 1000, SetSpeeds 0 0, Delay 100] w"
  obtain h w' where a: "averageHeading fpu ?w = (h, w')"
    by (metis prod.exhaust)
  note s = loop_steer_straight [OF assms True a]
  have ok: "target_ok (w'\<lparr>target_heading := Some (int_mod (h + 90) 360)\<rparr>)"
    if "fpu_contract fpu \<and> calibrated w \<and> target_ok w"
  proof -
    from that have "fpu_contract fpu" "calibrated ?w"
      by (simp_all add: calibrated_emit)
    from averageHeading_calibrated(1) [OF this a]
    have "sint (int_mod (h + 90) 360) = (sint h + 90) mod 360"
      by (intro sint_next_target) simp_all
    then show ?thesis
      by (simp add: target_ok_def)
  qed
  have "\<forall>e\<in>set [SetSpeeds SPEED SPEED, Delay 1000, SetSpeeds 0 0, Delay 100].
      \<forall>s\<in>set (motor_speeds e). \<bar>sint s\<bar> \<le> 300"
    by (simp add: SPEED_def)
  with s ok show ?thesis
    by (intro exI [of _ "w'\<lparr>target_heading := Some (int_mod (h + 90) 360)\<rparr>"]
        exI [of _ "[SetSpeeds SPEED SPEED, Delay 1000, SetSpeeds 0 0, Delay 100]"]) simp
next
  case False
  let ?q = "int_div (SPEED * relativeHeading heading_now target) 180"
  let ?s = "if ?q <s 0 then ?q - 100 else ?q + 100"
  have run: "loop_steer fpu heading_now w = Some (emit [SetSpeeds ?s (- ?s)] w)"
    using loop_steer_turn [OF assms False] .
  have b: "\<bar>sint ?s\<bar> \<le> 282" and m: "sint (- ?s) = - sint ?s"
    using turn_speed_any(2,3) [of "relativeHeading heading_now target"] by simp_all
  then have "\<bar>sint ?s\<bar> \<le> 300" "\<bar>sint (- ?s)\<bar> \<le> 300"
    by linarith+
  then have "\<forall>e\<in>set [SetSpeeds ?s (- ?s)]. \<forall>s\<in>set (motor_speeds e). \<bar>sint s\<bar> \<le> 300"
    by simp
  with run show ?thesis
    by (intro exI [of _ "emit [SetSpeeds ?s (- ?s)] w"] exI [of _ "[SetSpeeds ?s (- ?s)]"])
      (simp add: emit_fields target_ok_def)
qed

text \<open>
  A whole call of \<^verbatim>\<open>loop()\<close>: it always has a result, and what it does before the steering
  adds no event.
\<close>

lemma loop_cycle:
  "\<exists>h w1 t. loop fpu w = loop_steer fpu h w1 \<and> target_heading w1 = Some t
    \<and> trace w1 = trace w
    \<and> compass_m_min w1 = compass_m_min w \<and> compass_m_max w1 = compass_m_max w
    \<and> (fpu_contract fpu \<and> calibrated w \<and> target_ok w
        \<longrightarrow> 0 \<le> sint h \<and> sint h < 360 \<and> target_ok w1)"
proof -
  let ?w0 = "loop_static fpu w"
  have all0: "(\<exists>t. target_heading ?w0 = Some t) \<and> trace ?w0 = trace w
      \<and> compass_m_min ?w0 = compass_m_min w \<and> compass_m_max ?w0 = compass_m_max w
      \<and> (fpu_contract fpu \<and> calibrated w \<and> target_ok w \<longrightarrow> target_ok ?w0)"
  proof (cases "target_heading w")
    case None
    obtain h w' where a: "averageHeading fpu w = (h, w')"
      by (metis prod.exhaust)
    have e: "?w0 = w'\<lparr>target_heading := Some h\<rparr>"
      by (simp add: loop_static_def None a)
    note f = averageHeading_frame [OF a]
    have "fpu_contract fpu \<and> calibrated w \<and> target_ok w \<longrightarrow> target_ok ?w0"
      using averageHeading_calibrated(1) [OF _ _ a] by (auto simp add: e target_ok_def)
    then show ?thesis
      by (simp add: e f)
  next
    case (Some t)
    then have e: "?w0 = w"
      by (simp add: loop_static_def)
    then show ?thesis
      by (simp add: Some)
  qed
  then have w0: "\<exists>t. target_heading ?w0 = Some t" "trace ?w0 = trace w"
    "compass_m_min ?w0 = compass_m_min w" "compass_m_max ?w0 = compass_m_max w"
    and ok0: "fpu_contract fpu \<and> calibrated w \<and> target_ok w \<longrightarrow> target_ok ?w0"
    by blast+
  obtain h w1 where a: "averageHeading fpu ?w0 = (h, w1)"
    by (metis prod.exhaust)
  note f = averageHeading_frame [OF a]
  from w0(1) obtain t where t: "target_heading ?w0 = Some t" ..
  have run: "loop fpu w = loop_steer fpu h w1"
    by (simp add: loop_def Let_def a)
  have inv: "0 \<le> sint h \<and> sint h < 360 \<and> target_ok w1"
    if c: "fpu_contract fpu \<and> calibrated w \<and> target_ok w"
  proof -
    from c w0(3,4) have "calibrated ?w0"
      by (simp add: calibrated_def)
    with c have "0 \<le> sint h \<and> sint h < 360"
      using averageHeading_calibrated(1) [OF _ _ a] by blast
    moreover from c ok0 f(2) have "target_ok w1"
      by (simp add: target_ok_def)
    ultimately show ?thesis by blast
  qed
  from run t f w0 inv show ?thesis
    by (intro exI [of _ h] exI [of _ w1] exI [of _ t]) simp
qed

lemma loop_result:
  "\<exists>w' new. loop fpu w = Some w' \<and> trace w' = trace w @ new
    \<and> (\<forall>e\<in>set new. \<forall>s\<in>set (motor_speeds e). \<bar>sint s\<bar> \<le> 300)
    \<and> (fpu_contract fpu \<and> calibrated w \<and> target_ok w \<longrightarrow> calibrated w' \<and> target_ok w')"
proof -
  from loop_cycle [of fpu w]
  obtain h w1 t where c: "loop fpu w = loop_steer fpu h w1" "target_heading w1 = Some t"
    "trace w1 = trace w" "compass_m_min w1 = compass_m_min w" "compass_m_max w1 = compass_m_max w"
    "fpu_contract fpu \<and> calibrated w \<and> target_ok w \<longrightarrow> 0 \<le> sint h \<and> sint h < 360 \<and> target_ok w1"
    by blast
  from loop_steer_result [OF c(2), of fpu h]
  obtain w' new where r: "loop_steer fpu h w1 = Some w'" "trace w' = trace w1 @ new"
    "\<forall>e\<in>set new. \<forall>s\<in>set (motor_speeds e). \<bar>sint s\<bar> \<le> 300"
    "compass_m_min w' = compass_m_min w1" "compass_m_max w' = compass_m_max w1"
    "fpu_contract fpu \<and> calibrated w1 \<and> target_ok w1 \<longrightarrow> target_ok w'"
    by blast
  have cal: "calibrated w1 = calibrated w" "calibrated w' = calibrated w"
    using c(4,5) r(4,5) by (simp_all add: calibrated_def)
  have "fpu_contract fpu \<and> calibrated w \<and> target_ok w \<longrightarrow> calibrated w' \<and> target_ok w'"
    using c(6) r(6) cal by blast
  with c(1,3) r(1,2,3) show ?thesis
    by (intro exI [of _ w'] exI [of _ new]) simp
qed

subsection \<open>Concrete cycles\<close>

lemma average_loop_bench:
  "average_loop 0 (\<lparr>vx = 0, vy = 0, vz = 0\<rparr>, bench\<lparr>trace := tr, target_heading := t\<rparr>) =
     (\<lparr>vx = 1000, vy = 0, vz = 0\<rparr>,
      bench\<lparr>compass_m := \<lparr>vx = 100, vy = 0, vz = 0\<rparr>, reads := 10, trace := tr, target_heading := t\<rparr>)"
  by (simp add: average_loop.simps compass_read_def bench_def Let_def)

lemma averageHeading_bench:
  "averageHeading exact_fpu (bench\<lparr>trace := tr, target_heading := t\<rparr>) =
     (0, bench\<lparr>compass_m := \<lparr>vx = 100, vy = 0, vz = 0\<rparr>, reads := 10, trace := tr,
                target_heading := t\<rparr>)"
  unfolding averageHeading_def Let_def average_loop_bench
  by (simp add: heading_def x_scaled_def y_scaled_def round_macro_def exact_fields x_sub_def
      atan2_def c_trunc_def word_sless_alt bench_def)

lemma emit_bench:
  "emit es (bench\<lparr>target_heading := t\<rparr>) = bench\<lparr>trace := es, target_heading := t\<rparr>"
  by (simp add: emit_def bench_def)

lemma calibrated_bench: "calibrated (bench\<lparr>target_heading := t\<rparr>)"
  by (simp add: calibrated_def bench_def)

lemma bench_trace:
  "bench\<lparr>target_heading := t\<rparr> = bench\<lparr>trace := [], target_heading := t\<rparr>"
  by (simp add: bench_def)

lemma emit_bench_trace:
  "emit es (bench\<lparr>trace := tr, target_heading := t\<rparr>) =
     bench\<lparr>trace := tr @ es, target_heading := t\<rparr>"
  by (simp add: emit_def)

lemma relativeHeading_88_90: "relativeHeading 88 90 = 2"
  by (simp add: relativeHeading_def word_sless_alt)

lemma relativeHeading_0_90: "relativeHeading 0 90 = 90"
  by (simp add: relativeHeading_def word_sless_alt)

lemma relativeHeading_0_170: "relativeHeading 0 170 = 170"
  by (simp add: relativeHeading_def word_sless_alt)

lemma steer_straight_bench:
  "loop_steer exact_fpu 88 (bench\<lparr>target_heading := Some 90\<rparr>) =
     Some (bench\<lparr>compass_m := \<lparr>vx = 100, vy = 0, vz = 0\<rparr>, reads := 10,
                 trace := [SetSpeeds 200 200, Delay 1000, SetSpeeds 0 0, Delay 100],
                 target_heading := Some 90\<rparr>)"
proof -
  have "abs_macro (2 :: int16) <s DEVIATION_THRESHOLD"
    by (simp add: abs_macro_def DEVIATION_THRESHOLD_def word_sless_alt)
  then show ?thesis
    by (simp add: loop_steer_def Let_def relativeHeading_88_90 emit_bench emit_bench_trace
        averageHeading_bench SPEED_def int_mod_def signed_modulo_int_def)
qed

lemma steer_turn_bench:
  "loop_steer fpu 0 (bench\<lparr>compass_m := c, reads := n, trace := tr, target_heading := Some 90\<rparr>) =
     Some (bench\<lparr>compass_m := c, reads := n, trace := tr @ [SetSpeeds 200 (- 200)],
                 target_heading := Some 90\<rparr>)"
proof -
  have "\<not> abs_macro (90 :: int16) <s DEVIATION_THRESHOLD"
    by (simp add: abs_macro_def DEVIATION_THRESHOLD_def word_sless_alt)
  then show ?thesis
    by (simp add: loop_steer_def Let_def relativeHeading_0_90 emit_def SPEED_def int_div_def
        signed_divide_int_def word_sless_alt)
qed

lemma loop_bench:
  "loop exact_fpu (bench\<lparr>target_heading := Some 90\<rparr>) =
     Some (bench\<lparr>compass_m := \<lparr>vx = 100, vy = 0, vz = 0\<rparr>, reads := 10,
                 trace := [SetSpeeds 200 (- 200)], target_heading := Some 90\<rparr>)"
proof -
  let ?w = "bench\<lparr>target_heading := Some 90\<rparr>"
  let ?w1 = "bench\<lparr>compass_m := \<lparr>vx = 100, vy = 0, vz = 0\<rparr>, reads := 10, trace := [],
                   target_heading := Some 90\<rparr>"
  have s: "loop_static exact_fpu ?w = ?w"
    by (simp add: loop_static_def)
  have a: "averageHeading exact_fpu ?w = (0, ?w1)"
    using averageHeading_bench [where tr = "[]" and t = "Some 90"]
    by (simp add: bench_trace [symmetric])
  show ?thesis
    by (simp add: loop_def s a steer_turn_bench)
qed

text \<open>
  Claim C6. In a control cycle where the absolute relative heading is below
  \<open>DEVIATION_THRESHOLD\<close> (5), the controller commands both motors at \<open>SPEED\<close>, waits,
  stops the motors, waits, measures the heading again and sets the target to that heading
  plus 90 modulo 360 (the remainder of C, which is the remainder of the integers for a
  heading in \<open>[0, 360)\<close>). With target 90 and heading 88 the relative heading is 2 and the
  controller drives straight.
\<close>

theorem loop_straight:
  assumes "target_heading w = Some target"
    and "\<bar>sint (relativeHeading heading_now target)\<bar> < sint DEVIATION_THRESHOLD"
  shows "\<exists>h w'.
      averageHeading fpu (emit [SetSpeeds SPEED SPEED, Delay 1000, SetSpeeds 0 0, Delay 100] w)
        = (h, w')
    \<and> loop_steer fpu heading_now w = Some (w'\<lparr>target_heading := Some (int_mod (h + 90) 360)\<rparr>)
    \<and> trace w' = trace w @ [SetSpeeds SPEED SPEED, Delay 1000, SetSpeeds 0 0, Delay 100]
    \<and> (fpu_contract fpu \<and> calibrated w
        \<longrightarrow> sint (int_mod (h + 90) 360) = (sint h + 90) mod 360)"
proof -
  let ?rh = "relativeHeading heading_now target"
  let ?w = "emit [SetSpeeds SPEED SPEED, Delay 1000, SetSpeeds 0 0, Delay 100] w"
  from assms(2) have "- 32768 < sint ?rh"
    by (simp add: DEVIATION_THRESHOLD_def)
  then have "abs_macro ?rh <s DEVIATION_THRESHOLD \<longleftrightarrow> \<bar>sint ?rh\<bar> < 5"
    by (rule straight_test)
  with assms(2) have t: "abs_macro ?rh <s DEVIATION_THRESHOLD"
    by (simp add: DEVIATION_THRESHOLD_def)
  obtain h w' where a: "averageHeading fpu ?w = (h, w')"
    by (metis prod.exhaust)
  note s = loop_steer_straight(1,2) [OF assms(1) t a]
  have "sint (int_mod (h + 90) 360) = (sint h + 90) mod 360"
    if "fpu_contract fpu \<and> calibrated w"
  proof -
    from that have "fpu_contract fpu" "calibrated ?w"
      by (simp_all add: calibrated_emit)
    from averageHeading_calibrated(1) [OF this a] show ?thesis
      by (intro sint_next_target) simp_all
  qed
  with a s show ?thesis by blast
qed

theorem loop_straight_witness:
  "target_heading (bench\<lparr>target_heading := Some 90\<rparr>) = Some 90
   \<and> sint (relativeHeading 88 90) = 2
   \<and> \<bar>sint (relativeHeading 88 90)\<bar> < sint DEVIATION_THRESHOLD
   \<and> fpu_contract exact_fpu
   \<and> calibrated (bench\<lparr>target_heading := Some 90\<rparr>)
   \<and> averageHeading exact_fpu
         (emit [SetSpeeds SPEED SPEED, Delay 1000, SetSpeeds 0 0, Delay 100]
           (bench\<lparr>target_heading := Some 90\<rparr>))
       = (0, bench\<lparr>compass_m := \<lparr>vx = 100, vy = 0, vz = 0\<rparr>, reads := 10,
                   trace := [SetSpeeds 200 200, Delay 1000, SetSpeeds 0 0, Delay 100],
                   target_heading := Some 90\<rparr>)
   \<and> loop_steer exact_fpu 88 (bench\<lparr>target_heading := Some 90\<rparr>) =
       Some (bench\<lparr>compass_m := \<lparr>vx = 100, vy = 0, vz = 0\<rparr>, reads := 10,
                   trace := [SetSpeeds 200 200, Delay 1000, SetSpeeds 0 0, Delay 100],
                   target_heading := Some 90\<rparr>)
   \<and> sint (int_mod (0 + 90) 360) = (sint (0 :: int16) + 90) mod 360"
proof -
  have th: "\<bar>sint (relativeHeading 88 90)\<bar> < sint DEVIATION_THRESHOLD"
    by (simp add: relativeHeading_88_90 DEVIATION_THRESHOLD_def)
  have tg: "target_heading (bench\<lparr>target_heading := Some 90\<rparr>) = Some 90"
    by simp
  from loop_straight [OF tg th, of exact_fpu] exact_fpu_contract calibrated_bench [of "Some 90"]
  have "sint (int_mod (0 + 90) 360) = (sint (0 :: int16) + 90) mod 360"
    by (auto simp add: emit_bench averageHeading_bench SPEED_def)
  with th tg calibrated_bench steer_straight_bench exact_fpu_contract show ?thesis
    by (simp add: relativeHeading_88_90 emit_bench averageHeading_bench SPEED_def)
qed

text \<open>
  The turning branch for relative headings of at most 180 in absolute value, which is
  what headings in \<open>[0, 360)\<close> give. The quotient is a quotient of the 16-bit product: it is
  the quotient of the integers up to a relative heading of 163 in absolute value.
\<close>

lemma loop_steer_turning:
  assumes "target_heading w = Some target"
    and "sint DEVIATION_THRESHOLD \<le> \<bar>sint (relativeHeading heading_now target)\<bar>"
    and "\<bar>sint (relativeHeading heading_now target)\<bar> \<le> 180"
  shows "let relative_heading = relativeHeading heading_now target;
             quotient = int_div (SPEED * relative_heading) 180;
             speed = (if quotient <s 0 then quotient - 100 else quotient + 100)
         in loop_steer fpu heading_now w = Some (emit [SetSpeeds speed (- speed)] w)
          \<and> sint quotient = signed_take_bit 15 (200 * sint relative_heading) sdiv 180
          \<and> (\<bar>sint relative_heading\<bar> \<le> 163
              \<longrightarrow> sint quotient = (200 * sint relative_heading) sdiv 180)
          \<and> sint speed = (if sint quotient < 0 then sint quotient - 100 else sint quotient + 100)
          \<and> sint (- speed) = - sint speed"
proof -
  let ?rh = "relativeHeading heading_now target"
  let ?q = "int_div (SPEED * ?rh) 180"
  let ?s = "if ?q <s 0 then ?q - 100 else ?q + 100"
  from assms(2) have five: "5 \<le> \<bar>sint ?rh\<bar>"
    by (simp add: DEVIATION_THRESHOLD_def)
  from assms(3) have "- 32768 < sint ?rh" by linarith
  then have "abs_macro ?rh <s DEVIATION_THRESHOLD \<longleftrightarrow> \<bar>sint ?rh\<bar> < 5"
    by (rule straight_test)
  with five have "\<not> abs_macro ?rh <s DEVIATION_THRESHOLD" by simp
  from loop_steer_turn [OF assms(1) this]
  have run: "loop_steer fpu heading_now w = Some (emit [SetSpeeds ?s (- ?s)] w)" .
  have q: "sint ?q = signed_take_bit 15 (200 * sint ?rh) sdiv 180"
    using five assms(3) by (rule turn_speed(1))
  have plain: "sint ?q = (200 * sint ?rh) sdiv 180" if "\<bar>sint ?rh\<bar> \<le> 163"
  proof -
    from that have "signed_take_bit 15 (200 * sint ?rh) = 200 * sint ?rh"
      by (intro signed_take_bit_int_eq_self) simp_all
    with q show ?thesis by simp
  qed
  have s: "sint ?s = (if sint ?q < 0 then sint ?q - 100 else sint ?q + 100)"
    using five assms(3) by (rule turn_speed(2))
  have m: "sint (- ?s) = - sint ?s"
    using five assms(3) by (rule turn_speed(5))
  from run q plain s m show ?thesis
    unfolding Let_def by blast
qed

text \<open>
  Claim C7, at heading 0 and target 170. The relative heading is 170, at least
  \<open>DEVIATION_THRESHOLD\<close>, and the claim's speed is \<open>200 * 170 / 180 = 188\<close>, plus 100:
  the motors should get \<open>(288, -288)\<close>. The sketch computes the product in a 16-bit
  \<^verbatim>\<open>int\<close>, where \<open>200 * 170 = 34000\<close> wraps around to \<open>-31536\<close>: the quotient is \<open>-175\<close>, the
  offset is subtracted, and the motors get \<open>(-275, 275)\<close>, a turn away from the target.
\<close>

theorem turn_overflows:
  "sint (relativeHeading 0 170) = 170
   \<and> sint DEVIATION_THRESHOLD \<le> \<bar>sint (relativeHeading 0 170)\<bar>
   \<and> sint (SPEED * relativeHeading 0 170) = - 31536
   \<and> sint (int_div (SPEED * relativeHeading 0 170) 180) = - 175
   \<and> loop_steer fpu 0 (bench\<lparr>target_heading := Some 170\<rparr>) =
       Some (emit [SetSpeeds (- 275) 275] (bench\<lparr>target_heading := Some 170\<rparr>))
   \<and> sint SPEED * sint (relativeHeading 0 170) sdiv 180 = 188
   \<and> sint SPEED * sint (relativeHeading 0 170) sdiv 180 + 100 = 288"
proof -
  have "\<not> abs_macro (170 :: int16) <s DEVIATION_THRESHOLD"
    by (simp add: abs_macro_def DEVIATION_THRESHOLD_def word_sless_alt)
  then show ?thesis
    by (simp add: loop_steer_def Let_def relativeHeading_0_170 SPEED_def int_div_def
        DEVIATION_THRESHOLD_def signed_divide_int_def word_sless_alt)
qed

text \<open>
  Claim C10. The speeds commanded in \<^verbatim>\<open>loop()\<close> are bounded. When it drives straight, the
  controller commands \<open>(200, 200)\<close> and then \<open>(0, 0)\<close>. When it turns, for every relative
  heading between 5 and 180 in absolute value, the commanded speed is above 100 and at
  most 300 in absolute value. No command of a control cycle exceeds 300 in absolute
  value, whatever the readings and the calibration are, and a cycle that starts from
  non-degenerate bounds and a target in \<open>[0, 360)\<close> ends with them.
\<close>

theorem motor_speeds_bounded:
  "(target_heading w = Some target
      \<and> \<bar>sint (relativeHeading heading_now target)\<bar> < 5
     \<longrightarrow> (\<exists>w'. loop_steer fpu heading_now w = Some w'
           \<and> trace w' = trace w @ [SetSpeeds 200 200, Delay 1000, SetSpeeds 0 0, Delay 100]))
   \<and> (target_heading w = Some target
      \<and> 5 \<le> \<bar>sint (relativeHeading heading_now target)\<bar>
      \<and> \<bar>sint (relativeHeading heading_now target)\<bar> \<le> 180
     \<longrightarrow> (\<exists>speed. loop_steer fpu heading_now w = Some (emit [SetSpeeds speed (- speed)] w)
           \<and> 100 < \<bar>sint speed\<bar> \<and> \<bar>sint speed\<bar> \<le> 300
           \<and> \<bar>sint (- speed)\<bar> = \<bar>sint speed\<bar>))
   \<and> (\<exists>w' new. loop fpu w = Some w' \<and> trace w' = trace w @ new
           \<and> (\<forall>e\<in>set new. \<forall>s\<in>set (motor_speeds e). \<bar>sint s\<bar> \<le> 300)
           \<and> (fpu_contract fpu \<and> calibrated w \<and> target_ok w
               \<longrightarrow> calibrated w' \<and> target_ok w'))"
proof (intro conjI impI)
  let ?rh = "relativeHeading heading_now target"
  let ?w = "emit [SetSpeeds SPEED SPEED, Delay 1000, SetSpeeds 0 0, Delay 100] w"
  assume a: "target_heading w = Some target \<and> \<bar>sint ?rh\<bar> < 5"
  then have "- 32768 < sint ?rh" by linarith
  then have "abs_macro ?rh <s DEVIATION_THRESHOLD \<longleftrightarrow> \<bar>sint ?rh\<bar> < 5"
    by (rule straight_test)
  with a have t: "abs_macro ?rh <s DEVIATION_THRESHOLD" by simp
  from a have g: "target_heading w = Some target" by simp
  obtain h w' where v: "averageHeading fpu ?w = (h, w')"
    by (metis prod.exhaust)
  from loop_steer_straight(1,2) [OF g t v]
  show "\<exists>w'. loop_steer fpu heading_now w = Some w'
      \<and> trace w' = trace w @ [SetSpeeds 200 200, Delay 1000, SetSpeeds 0 0, Delay 100]"
    by (simp add: SPEED_def)
next
  let ?rh = "relativeHeading heading_now target"
  let ?q = "int_div (SPEED * ?rh) 180"
  let ?s = "if ?q <s 0 then ?q - 100 else ?q + 100"
  assume a: "target_heading w = Some target \<and> 5 \<le> \<bar>sint ?rh\<bar> \<and> \<bar>sint ?rh\<bar> \<le> 180"
  then have g: "target_heading w = Some target" and five: "5 \<le> \<bar>sint ?rh\<bar>"
    and top: "\<bar>sint ?rh\<bar> \<le> 180"
    by simp_all
  from top have "- 32768 < sint ?rh" by linarith
  then have "abs_macro ?rh <s DEVIATION_THRESHOLD \<longleftrightarrow> \<bar>sint ?rh\<bar> < 5"
    by (rule straight_test)
  with five have "\<not> abs_macro ?rh <s DEVIATION_THRESHOLD" by simp
  from loop_steer_turn [OF g this]
  have run: "loop_steer fpu heading_now w = Some (emit [SetSpeeds ?s (- ?s)] w)" .
  have b: "100 < \<bar>sint ?s\<bar> \<and> \<bar>sint ?s\<bar> \<le> 300"
    using five top by (rule turn_speed(4))
  have "sint (- ?s) = - sint ?s"
    using five top by (rule turn_speed(5))
  then have "\<bar>sint (- ?s)\<bar> = \<bar>sint ?s\<bar>" by simp
  with run b show "\<exists>speed. loop_steer fpu heading_now w = Some (emit [SetSpeeds speed (- speed)] w)
      \<and> 100 < \<bar>sint speed\<bar> \<and> \<bar>sint speed\<bar> \<le> 300 \<and> \<bar>sint (- speed)\<bar> = \<bar>sint speed\<bar>"
    by blast
next
  show "\<exists>w' new. loop fpu w = Some w' \<and> trace w' = trace w @ new
      \<and> (\<forall>e\<in>set new. \<forall>s\<in>set (motor_speeds e). \<bar>sint s\<bar> \<le> 300)
      \<and> (fpu_contract fpu \<and> calibrated w \<and> target_ok w \<longrightarrow> calibrated w' \<and> target_ok w')"
    by (rule loop_result)
qed

theorem motor_speeds_bounded_witness:
  "fpu_contract exact_fpu
   \<and> calibrated (bench\<lparr>target_heading := Some 90\<rparr>)
   \<and> target_ok (bench\<lparr>target_heading := Some 90\<rparr>)
   \<and> target_heading (bench\<lparr>target_heading := Some 90\<rparr>) = Some 90
   \<and> \<bar>sint (relativeHeading 88 90)\<bar> < 5
   \<and> loop_steer exact_fpu 88 (bench\<lparr>target_heading := Some 90\<rparr>) =
       Some (bench\<lparr>compass_m := \<lparr>vx = 100, vy = 0, vz = 0\<rparr>, reads := 10,
                   trace := [SetSpeeds 200 200, Delay 1000, SetSpeeds 0 0, Delay 100],
                   target_heading := Some 90\<rparr>)
   \<and> 5 \<le> \<bar>sint (relativeHeading 0 90)\<bar> \<and> \<bar>sint (relativeHeading 0 90)\<bar> \<le> 180
   \<and> loop_steer exact_fpu 0 (bench\<lparr>target_heading := Some 90\<rparr>) =
       Some (emit [SetSpeeds 200 (- 200)] (bench\<lparr>target_heading := Some 90\<rparr>))
   \<and> 100 < \<bar>sint (200 :: int16)\<bar> \<and> \<bar>sint (200 :: int16)\<bar> \<le> 300
   \<and> \<bar>sint (- 200 :: int16)\<bar> = \<bar>sint (200 :: int16)\<bar>
   \<and> loop exact_fpu (bench\<lparr>target_heading := Some 90\<rparr>) =
       Some (bench\<lparr>compass_m := \<lparr>vx = 100, vy = 0, vz = 0\<rparr>, reads := 10,
                   trace := [SetSpeeds 200 (- 200)], target_heading := Some 90\<rparr>)
   \<and> motor_speeds (SetSpeeds 200 (- 200)) = [200, - 200]
   \<and> \<bar>sint (- 200 :: int16)\<bar> \<le> 300
   \<and> calibrated (bench\<lparr>compass_m := \<lparr>vx = 100, vy = 0, vz = 0\<rparr>, reads := 10,
                   trace := [SetSpeeds 200 (- 200)], target_heading := Some 90\<rparr>)
   \<and> target_ok (bench\<lparr>compass_m := \<lparr>vx = 100, vy = 0, vz = 0\<rparr>, reads := 10,
                   trace := [SetSpeeds 200 (- 200)], target_heading := Some 90\<rparr>)"
proof -
  have ok: "target_ok (bench\<lparr>target_heading := Some 90\<rparr>)"
    by (simp add: target_ok_def)
  have turn: "loop_steer exact_fpu 0 (bench\<lparr>target_heading := Some 90\<rparr>) =
       Some (emit [SetSpeeds 200 (- 200)] (bench\<lparr>target_heading := Some 90\<rparr>))"
    using steer_turn_bench [where c = "compass_m bench" and n = "reads bench" and tr = "[]"
        and fpu = exact_fpu]
    by (simp add: emit_bench) (simp add: bench_def)
  show ?thesis
    using motor_speeds_bounded [of "bench\<lparr>target_heading := Some 90\<rparr>" 90 88 exact_fpu]
      motor_speeds_bounded [of "bench\<lparr>target_heading := Some 90\<rparr>" 90 0 exact_fpu]
      calibrated_bench [of "Some 90"] ok steer_straight_bench turn loop_bench exact_fpu_contract
    by (simp add: relativeHeading_88_90 relativeHeading_0_90 calibrated_def target_ok_def)
qed

end
